theory Spec2Isabelle
  imports Complex_Main
begin

section \<open>Data model of the lineup editor (src/src/App.tsx)\<close>

text \<open>
  JavaScript numbers are modelled as follows. Coordinates, percentages and pixel
  positions are real numbers. The horizontal seat coordinate of the layout is computed
  as the source computes it, with every division, multiplication, addition and
  subtraction rounded to the nearest double (\<open>fl\<close> below), because its symmetry and
  spacing depend on the rounding; the other coordinate arithmetic is carried out on the
  reals. A formation line entry is a \<open>jsnumber\<close> that is either an integer or NaN
  (\<open>None\<close>): the entries come from the constant table of the formation editor
  (positive integers) or from \<open>parseInt\<close> in \<open>parseFormation\<close> (an integer or NaN).
  Scores are integers. Seat indices and array lengths are natural numbers.
\<close>

type_synonym jsnumber = "int option"

record Position =
  pos_x :: real
  pos_y :: real

record Formation =
  name :: string
  lines :: "jsnumber list"

record Player =
  number :: string
  pname :: string
  yellowCard :: "bool option"
  redCard :: "bool option"
  goals :: "nat option"

text \<open>An override map \<open>Record<number, {x, y}>\<close> keyed by seat index.\<close>

type_synonym override_map = "nat \<rightharpoonup> Position"

definition MOVEMENT_THRESHOLD :: real where
  "MOVEMENT_THRESHOLD = 6"

definition clamp01 :: "real \<Rightarrow> real" where
  "clamp01 v = max 0 (min 100 v)"

section \<open>Layout calculator: calcPositions\<close>

text \<open>
  The body of the \<open>forEach\<close> callback up to the seat loop: the vertical coordinate of the
  line with index \<open>lineIndex\<close> in a formation of \<open>len\<close> lines. The first four bindings are
  the source's computation of \<open>computedY\<close>, which both branches of the following
  conditional overwrite.
\<close>

definition lineY :: "nat \<Rightarrow> nat \<Rightarrow> real" where
  "lineY len lineIndex =
     (let totalLines = max 1 (real len - 1);
          rawY = (real lineIndex / totalLines) * 85 + 8;
          center = 50;
          computedY = max 0 ((center + (rawY - center) * 0.8) - 3.5);
          yForLine = computedY
      in if lineIndex = 0 then 90
         else (let totalLines = real len;
                   topY = 10;
                   bottomY = 90;
                   spacing = (bottomY - topY) / (totalLines - 1)
               in bottomY - spacing * real lineIndex))"

text \<open>
  Rounding to the nearest double. \<open>rne\<close> rounds a real to the nearest integer, a tie
  to the even one. \<open>fl\<close> rounds a real to 53 significant bits: a value of binary
  exponent \<open>e\<close> is rounded to a multiple of \<open>2^(e - 52)\<close>. The exponent is unbounded,
  so that overflow and subnormal numbers are left out; the coordinates of a seat are
  far from both. Integers are taken as exact, which they are below \<open>2^53\<close>.
\<close>

definition rne :: "real \<Rightarrow> int" where
  "rne z =
     (let f = \<lfloor>z\<rfloor>; r = z - of_int f
      in if r < 1 / 2 then f else if 1 / 2 < r then f + 1 else if even f then f else f + 1)"

definition fl :: "real \<Rightarrow> real" where
  "fl v =
     (if v = 0 then 0
      else (let e = \<lfloor>log 2 \<bar>v\<bar>\<rfloor>; ulp = 2 powr (of_int e - 52)
            in of_int (rne (v / ulp)) * ulp))"

text \<open>
  The body of the seat loop: \<open>baseX = ((lineCount - i) / (lineCount + 1)) * 100\<close> and
  \<open>x = 50 + (baseX - 50) * 1.2\<close>, each operation rounded; the literal \<open>1.2\<close> is the
  double nearest to it.
\<close>

definition seatX :: "int \<Rightarrow> nat \<Rightarrow> real" where
  "seatX lineCount i =
     (let baseX = fl (fl (real_of_int (lineCount - int i) / real_of_int (lineCount + 1)) * 100)
      in fl (50 + fl (fl (baseX - 50) * fl (12 / 10))))"

text \<open>
  The same formula in exact arithmetic: the evenly spaced base \<open>(n - k) / (n + 1) * 100\<close>
  of seat \<open>k\<close> in a line of \<open>n\<close> seats, widened by the factor 1.2 about the centre 50.
\<close>

definition idealX :: "nat \<Rightarrow> nat \<Rightarrow> real" where
  "idealX n k = 50 + ((real_of_int (int n - int k) / real_of_int (int n + 1)) * 100 - 50) * 1.2"

text \<open>
  The seat loop \<open>for (let i = 0; i < lineCount; i++)\<close>: it runs \<open>lineCount\<close> times for a
  non-negative integer and not at all for a negative one or for NaN.
\<close>

definition lineSeats :: "jsnumber \<Rightarrow> real \<Rightarrow> Position list" where
  "lineSeats lineCount yForLine =
     (case lineCount of
        None \<Rightarrow> []
      | Some n \<Rightarrow> map (\<lambda>i. \<lparr>pos_x = seatX n i, pos_y = yForLine\<rparr>) [0..<nat n])"

text \<open>\<open>formation.lines.forEach((lineCount, lineIndex) => ...)\<close>, pushing onto \<open>positions\<close>.\<close>

fun placeLines :: "nat \<Rightarrow> nat \<Rightarrow> jsnumber list \<Rightarrow> Position list" where
  "placeLines len lineIndex [] = []"
| "placeLines len lineIndex (lineCount # rest) =
     lineSeats lineCount (lineY len lineIndex) @ placeLines len (Suc lineIndex) rest"

definition calcPositions :: "Formation \<Rightarrow> Position list" where
  "calcPositions formation = placeLines (length (lines formation)) 0 (lines formation)"

text \<open>
  A formation of the data model: every line entry is a count of players. \<open>seatIndex\<close> is
  the roster index of seat \<open>k\<close> of line \<open>i\<close>, the number of seats pushed before it.
\<close>

definition counts :: "nat list \<Rightarrow> jsnumber list" where
  "counts ns = map (\<lambda>n. Some (int n)) ns"

definition seatIndex :: "nat list \<Rightarrow> nat \<Rightarrow> nat \<Rightarrow> nat" where
  "seatIndex ns i k = sum_list (take i ns) + k"

section \<open>Score control (src/src/components/ScoreDraggable.tsx)\<close>

definition clamp :: "int \<Rightarrow> int \<Rightarrow> int \<Rightarrow> int" where
  "clamp n lo hi = max lo (min hi n)"

text \<open>
  The props of the component; \<open>min\<close> and \<open>max\<close> are optional and default to 0 and 9.
  \<open>App\<close> passes \<open>value\<close> and \<open>onChange\<close> only.
\<close>

record ScoreDraggableProps =
  sd_value :: int
  sd_min :: "int option"
  sd_max :: "int option"

definition propMin :: "ScoreDraggableProps \<Rightarrow> int" where
  "propMin p = (case sd_min p of None \<Rightarrow> 0 | Some m \<Rightarrow> m)"

definition propMax :: "ScoreDraggableProps \<Rightarrow> int" where
  "propMax p = (case sd_max p of None \<Rightarrow> 9 | Some m \<Rightarrow> m)"

datatype key = ArrowUp | ArrowDown | Enter | OtherKey

text \<open>
  A handler of the control returns the value passed to \<open>onChange\<close>, if it calls it, and
  the new state of the popup (\<open>open\<close>).
\<close>

definition onKeyDown :: "ScoreDraggableProps \<Rightarrow> bool \<Rightarrow> key \<Rightarrow> int option \<times> bool" where
  "onKeyDown p opn k =
     (case k of
        ArrowUp \<Rightarrow> (Some (clamp (sd_value p - 1) (propMin p) (propMax p)), opn)
      | ArrowDown \<Rightarrow> (Some (clamp (sd_value p + 1) (propMin p) (propMax p)), opn)
      | Enter \<Rightarrow> (None, \<not> opn)
      | OtherKey \<Rightarrow> (None, opn))"

definition onMinusClick :: "ScoreDraggableProps \<Rightarrow> int" where
  "onMinusClick p = clamp (sd_value p - 1) (propMin p) (propMax p)"

definition onPlusClick :: "ScoreDraggableProps \<Rightarrow> int" where
  "onPlusClick p = clamp (sd_value p + 1) (propMin p) (propMax p)"

text \<open>The control as \<open>App\<close> renders it: \<open><ScoreDraggable value={scoreA} onChange={...} />\<close>.\<close>

definition appScoreProps :: "int \<Rightarrow> ScoreDraggableProps" where
  "appScoreProps v = \<lparr>sd_value = v, sd_min = None, sd_max = None\<rparr>"


section \<open>Override resolution, mode transform and broadcast payload\<close>

text \<open>
  The expression shared by the renderer and by \<open>broadcastCurrentPlayerPositions\<close>:
  \<open>const defaultPos = playerPositions[index]; if (!defaultPos) return null;
  let pos = overrides[index] ?? defaultPos\<close>. \<open>None\<close> is the \<open>null\<close> of a roster index
  beyond the seats of the formation.
\<close>

definition effectivePos :: "Position list \<Rightarrow> override_map \<Rightarrow> nat \<Rightarrow> Position option" where
  "effectivePos playerPositions ovr index =
     (if index < length playerPositions
      then Some (case ovr index of Some p \<Rightarrow> p | None \<Rightarrow> playerPositions ! index)
      else None)"

text \<open>The combined-vertical projection of team A (top half) and of team B (mirrored, bottom half).\<close>

definition toVerticalA :: "Position \<Rightarrow> Position" where
  "toVerticalA pos =
     (let topStart = 2;
          topSpan = 50;
          mappedY = topStart + (pos_y pos / 100) * topSpan;
          mappedX = 50 + (pos_x pos - 50) * 1.15
      in \<lparr>pos_x = mappedX, pos_y = mappedY\<rparr>)"

definition toVerticalB :: "Position \<Rightarrow> Position" where
  "toVerticalB pos =
     (let bottomStart = 48;
          bottomSpan = 50;
          mirroredY = 100 - pos_y pos;
          mappedY = bottomStart + (mirroredY / 100) * bottomSpan;
          mappedX = 50 + (pos_x pos - 50) * 1.15
      in \<lparr>pos_x = mappedX, pos_y = mappedY\<rparr>)"

text \<open>
  The seat elements of the two teams: the \<open>left\<close> and \<open>top\<close> percentages of the style of
  the element that \<open>players.map\<close> renders for a roster index, in either display mode.
\<close>

definition renderSeatA :: "Formation \<Rightarrow> override_map \<Rightarrow> bool \<Rightarrow> nat \<Rightarrow> Position option" where
  "renderSeatA formation ovr verticalMode index =
     (case effectivePos (calcPositions formation) ovr index of
        None \<Rightarrow> None
      | Some pos \<Rightarrow> Some (if verticalMode then toVerticalA pos else pos))"

definition renderSeatB :: "Formation \<Rightarrow> override_map \<Rightarrow> bool \<Rightarrow> nat \<Rightarrow> Position option" where
  "renderSeatB formationB ovrB verticalMode index =
     (case effectivePos (calcPositions formationB) ovrB index of
        None \<Rightarrow> None
      | Some basePos \<Rightarrow> Some (if verticalMode then toVerticalB basePos else basePos))"

text \<open>\<open>Math.round(v * 100) / 100\<close>; \<open>Math.round\<close> rounds half up.\<close>

definition round2 :: "real \<Rightarrow> real" where
  "round2 v = real_of_int \<lfloor>v * 100 + 1 / 2\<rfloor> / 100"

fun showNat :: "nat \<Rightarrow> string" where
  "showNat n =
     (if n < 10 then [char_of (48 + n)]
      else showNat (n div 10) @ [char_of (48 + n mod 10)])"

declare showNat.simps [simp del]

record BroadcastSeat =
  seat_id :: string
  seat_team :: string
  seat_number :: string
  seat_name :: string
  seat_x :: real
  seat_y :: real
  seat_yellowCard :: bool
  seat_redCard :: bool

text \<open>\<open>player.yellowCard || false\<close> for an optional flag.\<close>

definition flagOr :: "bool option \<Rightarrow> bool" where
  "flagOr b = (case b of None \<Rightarrow> False | Some v \<Rightarrow> v)"

text \<open>The callbacks of \<open>players.map\<close> and \<open>playersB.map\<close> in \<open>broadcastCurrentPlayerPositions\<close>.\<close>

definition broadcastSeatA ::
  "Formation \<Rightarrow> override_map \<Rightarrow> bool \<Rightarrow> nat \<Rightarrow> Player \<Rightarrow> BroadcastSeat option" where
  "broadcastSeatA formation ovr verticalMode index player =
     (case effectivePos (calcPositions formation) ovr index of
        None \<Rightarrow> None
      | Some pos0 \<Rightarrow>
          (let pos = (if verticalMode then toVerticalA pos0 else pos0)
           in Some \<lparr>seat_id = ''A-'' @ showNat index, seat_team = ''A'',
                    seat_number = number player, seat_name = pname player,
                    seat_x = round2 (pos_x pos), seat_y = round2 (pos_y pos),
                    seat_yellowCard = flagOr (yellowCard player),
                    seat_redCard = flagOr (redCard player)\<rparr>))"

definition broadcastSeatB ::
  "Formation \<Rightarrow> override_map \<Rightarrow> bool \<Rightarrow> nat \<Rightarrow> Player \<Rightarrow> BroadcastSeat option" where
  "broadcastSeatB formationB ovrB verticalMode index player =
     (case effectivePos (calcPositions formationB) ovrB index of
        None \<Rightarrow> None
      | Some pos0 \<Rightarrow>
          (let pos = (if verticalMode then toVerticalB pos0 else pos0)
           in Some \<lparr>seat_id = ''B-'' @ showNat index, seat_team = ''B'',
                    seat_number = number player, seat_name = pname player,
                    seat_x = round2 (pos_x pos), seat_y = round2 (pos_y pos),
                    seat_yellowCard = flagOr (yellowCard player),
                    seat_redCard = flagOr (redCard player)\<rparr>))"

text \<open>\<open>players.map(...).filter(Boolean)\<close>: the seats of a roster, without the nulls.\<close>

definition teamAPositions ::
  "Formation \<Rightarrow> Player list \<Rightarrow> override_map \<Rightarrow> bool \<Rightarrow> BroadcastSeat list" where
  "teamAPositions formation players ovr verticalMode =
     List.map_filter (\<lambda>(index, player). broadcastSeatA formation ovr verticalMode index player)
       (enumerate 0 players)"

definition teamBPositions ::
  "Formation \<Rightarrow> Player list \<Rightarrow> override_map \<Rightarrow> bool \<Rightarrow> BroadcastSeat list" where
  "teamBPositions formationB playersB ovrB verticalMode =
     List.map_filter (\<lambda>(index, player). broadcastSeatB formationB ovrB verticalMode index player)
       (enumerate 0 playersB)"

section \<open>Application state\<close>

text \<open>
  The state variables and refs of \<open>App\<close> that the handlers below read or write. A
  pending timer is the value of the ref that holds it:
  the seat index of a scheduled single-click callback with its delay in milliseconds, or
  the delay of a scheduled broadcast. \<open>fieldRef\<close> and \<open>fieldRefB\<close> hold the bounding
  rectangle of the mounted pitch element, if any.
\<close>

record TeamLogo =
  logo_id :: string
  logo_slug :: string
  logo_country :: string
  logo_englishName :: string
  logo_svg :: "string option"
  logo_png :: "string option"

record DragState =
  ds_index :: nat
  startX :: real
  startY :: real
  moved :: bool
  pointerOffsetX :: real
  pointerOffsetY :: real

record Rect =
  r_left :: real
  r_top :: real
  r_width :: real
  r_height :: real

record PointerEv =
  clientX :: real
  clientY :: real

record ClickTimer =
  ct_index :: nat
  ct_delay :: nat

record AppState =
  formation :: Formation
  players :: "Player list"
  uniformColor :: string
  teamNameA :: string
  teamLogoA :: "TeamLogo option"
  overrides :: override_map
  formationB :: Formation
  playersB :: "Player list"
  uniformColorB :: string
  teamNameB :: string
  teamLogoB :: "TeamLogo option"
  overridesB :: override_map
  scoreA :: int
  scoreB :: int
  verticalMode :: bool
  selectedPlayer :: "nat option"
  editingPlayer :: "Player option"
  selectedPlayerB :: "nat option"
  editingPlayerB :: "Player option"
  showLiveMatches :: bool
  isLoadingMatches :: bool
  selectedFixtureId :: "int option"
  autoRefreshEnabled :: bool
  fieldRef :: "Rect option"
  fieldRefB :: "Rect option"
  draggingRef :: "DragState option"
  draggingRefB :: "DragState option"
  singleClickTimerRef :: "ClickTimer option"
  singleClickTimerRefB :: "ClickTimer option"
  broadcastTimerRef :: "nat option"

section \<open>Drag controller\<close>

text \<open>\<open>Math.hypot(dx, dy)\<close>.\<close>

definition hypot :: "real \<Rightarrow> real \<Rightarrow> real" where
  "hypot dx dy = sqrt (dx\<^sup>2 + dy\<^sup>2)"

text \<open>
  \<open>toPercent(clientX, clientY, ref)\<close>: \<open>refCurrent\<close> is \<open>ref?.current\<close> and
  \<open>fieldCurrent\<close> is \<open>fieldRef.current\<close>. The rectangle of a mounted element has a
  positive width and height.
\<close>

definition toPercent :: "real \<Rightarrow> real \<Rightarrow> Rect option \<Rightarrow> Rect option \<Rightarrow> Position option" where
  "toPercent cx cy refCurrent fieldCurrent =
     (case (case refCurrent of Some el \<Rightarrow> Some el | None \<Rightarrow> fieldCurrent) of
        None \<Rightarrow> None
      | Some rect \<Rightarrow>
          (let px = ((cx - r_left rect) / r_width rect) * 100;
               py = ((cy - r_top rect) / r_height rect) * 100
           in Some \<lparr>pos_x = clamp01 px, pos_y = clamp01 py\<rparr>))"

text \<open>
  The value that \<open>onPointerMove\<close> and \<open>onPointerMoveB\<close> store for the pointer-derived
  percentage \<open>p\<close>: the two branches of \<open>if (verticalMode)\<close> at the end of each handler.
\<close>

definition overrideValueA :: "bool \<Rightarrow> Position \<Rightarrow> Position" where
  "overrideValueA vertical p =
     (if vertical
      then (let halfY = clamp01 ((pos_y p / 50) * 100) in \<lparr>pos_x = pos_x p, pos_y = halfY\<rparr>)
      else p)"

definition overrideValueB :: "bool \<Rightarrow> Position \<Rightarrow> Position" where
  "overrideValueB vertical p =
     (if vertical
      then (let halfY = clamp01 (((100 - pos_y p) / 50) * 100) in \<lparr>pos_x = pos_x p, pos_y = halfY\<rparr>)
      else p)"

text \<open>\<open>handlePlayerClick\<close>; \<open>players[index]\<close> is \<open>undefined\<close> beyond the roster.\<close>

definition handlePlayerClick :: "nat \<Rightarrow> AppState \<Rightarrow> AppState" where
  "handlePlayerClick index st =
     st\<lparr>selectedPlayer := Some index,
        editingPlayer := (if index < length (players st) then Some (players st ! index) else None)\<rparr>"

definition handlePlayerClickB :: "nat \<Rightarrow> AppState \<Rightarrow> AppState" where
  "handlePlayerClickB index st =
     st\<lparr>selectedPlayerB := Some index,
        editingPlayerB := (if index < length (playersB st) then Some (playersB st ! index) else None)\<rparr>"

text \<open>\<open>onPointerDown(e, index)\<close>; \<open>rect\<close> is the bounding rectangle of the seat element.\<close>

definition onPointerDown :: "PointerEv \<Rightarrow> Rect \<Rightarrow> nat \<Rightarrow> AppState \<Rightarrow> AppState" where
  "onPointerDown e rect index st =
     (let centerX = r_left rect + r_width rect / 2;
          centerY = r_top rect + r_height rect / 2
      in st\<lparr>draggingRef := Some \<lparr>ds_index = index, startX = clientX e, startY = clientY e,
                                  moved = False,
                                  pointerOffsetX = clientX e - centerX,
                                  pointerOffsetY = clientY e - centerY\<rparr>\<rparr>)"

definition onPointerMove :: "PointerEv \<Rightarrow> AppState \<Rightarrow> AppState" where
  "onPointerMove e st =
     (case draggingRef st of
        None \<Rightarrow> st
      | Some dr0 \<Rightarrow>
          (let dx = clientX e - startX dr0;
               dy = clientY e - startY dr0;
               dr = (if hypot dx dy > MOVEMENT_THRESHOLD then dr0\<lparr>moved := True\<rparr> else dr0);
               st1 = st\<lparr>draggingRef := Some dr\<rparr>;
               adjustedClientX = clientX e - pointerOffsetX dr;
               adjustedClientY = clientY e - pointerOffsetY dr
           in case toPercent adjustedClientX adjustedClientY (fieldRef st) (fieldRef st) of
                None \<Rightarrow> st1
              | Some p \<Rightarrow>
                  st1\<lparr>overrides := (overrides st1)(ds_index dr \<mapsto>
                                       overrideValueA (verticalMode st) p)\<rparr>))"


text \<open>The callback of the single-click timer, when it fires, and \<open>onDoubleClick\<close> of a seat.\<close>

definition singleClickFires :: "AppState \<Rightarrow> AppState" where
  "singleClickFires st =
     (case singleClickTimerRef st of
        None \<Rightarrow> st
      | Some t \<Rightarrow> (handlePlayerClick (ct_index t) st)\<lparr>singleClickTimerRef := None\<rparr>)"

definition onDoubleClick :: "nat \<Rightarrow> AppState \<Rightarrow> AppState" where
  "onDoubleClick index st = handlePlayerClick index (st\<lparr>singleClickTimerRef := None\<rparr>)"

definition onPointerDownB :: "PointerEv \<Rightarrow> Rect \<Rightarrow> nat \<Rightarrow> AppState \<Rightarrow> AppState" where
  "onPointerDownB e rect index st =
     (let centerX = r_left rect + r_width rect / 2;
          centerY = r_top rect + r_height rect / 2
      in st\<lparr>draggingRefB := Some \<lparr>ds_index = index, startX = clientX e, startY = clientY e,
                                   moved = False,
                                   pointerOffsetX = clientX e - centerX,
                                   pointerOffsetY = clientY e - centerY\<rparr>\<rparr>)"

definition onPointerMoveB :: "PointerEv \<Rightarrow> AppState \<Rightarrow> AppState" where
  "onPointerMoveB e st =
     (case draggingRefB st of
        None \<Rightarrow> st
      | Some dr0 \<Rightarrow>
          (let dx = clientX e - startX dr0;
               dy = clientY e - startY dr0;
               dr = (if hypot dx dy > MOVEMENT_THRESHOLD then dr0\<lparr>moved := True\<rparr> else dr0);
               st1 = st\<lparr>draggingRefB := Some dr\<rparr>;
               adjustedClientX = clientX e - pointerOffsetX dr;
               adjustedClientY = clientY e - pointerOffsetY dr
           in case toPercent adjustedClientX adjustedClientY
                     (if verticalMode st then fieldRef st else fieldRefB st) (fieldRef st) of
                None \<Rightarrow> st1
              | Some p \<Rightarrow>
                  st1\<lparr>overridesB := (overridesB st1)(ds_index dr \<mapsto>
                                        overrideValueB (verticalMode st) p)\<rparr>))"





section \<open>Match-feed reconciler\<close>

subsection \<open>Formation strings\<close>

text \<open>\<open>str.split(sep)\<close> for a one-character separator: the pieces between the separators.\<close>

fun splitOn :: "char \<Rightarrow> string \<Rightarrow> string list" where
  "splitOn sep [] = [[]]"
| "splitOn sep (c # cs) =
     (if c = sep then [] # splitOn sep cs
      else (case splitOn sep cs of
              [] \<Rightarrow> [[c]]
            | w # ws \<Rightarrow> (c # w) # ws))"

text \<open>
  \<open>parseInt(s, 10)\<close>: leading white space is skipped, a sign is read, then the longest
  run of decimal digits; the result is NaN (\<open>None\<close>) when there is no digit. The white
  space is the ASCII part of what JavaScript strips.
\<close>

definition isWhite :: "char \<Rightarrow> bool" where
  "isWhite c = (c \<in> set [CHR '' '', CHR 0x09, CHR 0x0A, CHR 0x0B, CHR 0x0C, CHR 0x0D])"

definition isDigit :: "char \<Rightarrow> bool" where
  "isDigit c = ((48::nat) \<le> of_char c \<and> (of_char c :: nat) \<le> 57)"

definition digitsValue :: "string \<Rightarrow> nat" where
  "digitsValue ds = foldl (\<lambda>acc c. 10 * acc + (of_char c - 48)) 0 ds"

definition parseInt :: "string \<Rightarrow> jsnumber" where
  "parseInt s =
     (let s1 = dropWhile isWhite s;
          (sign, s2) = (case s1 of
                          [] \<Rightarrow> (1, s1)
                        | c # r \<Rightarrow> if c = CHR ''-'' then (-1, r)
                                   else if c = CHR ''+'' then (1, r) else (1, s1));
          ds = takeWhile isDigit s2
      in if ds = [] then None else Some (sign * int (digitsValue ds)))"

text \<open>\<open>parseFormation\<close>; a missing string (\<open>null\<close>, \<open>undefined\<close>) is \<open>None\<close>.\<close>

definition parseFormation :: "string option \<Rightarrow> jsnumber list" where
  "parseFormation formationStr =
     (case formationStr of
        None \<Rightarrow> [Some 1, Some 4, Some 3, Some 3]
      | Some str \<Rightarrow>
          if str = [] then [Some 1, Some 4, Some 3, Some 3]
          else (let parts = map parseInt (splitOn (CHR ''-'') str)
                in Some 1 # parts))"

text \<open>A well-formed feed formation string: the decimal line counts joined by hyphens.\<close>

fun joinHyphen :: "string list \<Rightarrow> string" where
  "joinHyphen [] = []"
| "joinHyphen [w] = w"
| "joinHyphen (w # v # ws) = w @ CHR ''-'' # joinHyphen (v # ws)"

subsection \<open>Roster and events of the feed\<close>

text \<open>
  The fields of the feed that \<open>loadMatchLineup\<close> reads. An identifier is compared
  through \<open>String(...)\<close>, under which two numbers are equal when they are the same number
  and two missing identifiers are equal; a missing identifier or name is \<open>None\<close>.
\<close>

record FeedPlayer =
  fp_id :: "int option"
  fp_name :: "string option"
  fp_number :: "nat option"

record FeedEvent =
  ev_type :: string
  ev_detail :: string
  ev_player_id :: "int option"
  ev_player_name :: "string option"

record Lineup =
  lu_formation :: "string option"
  lu_startXI :: "FeedPlayer list"
  lu_team_country :: "string option"

record Fixture =
  fx_events :: "FeedEvent list"
  fx_goals_home :: "int option"
  fx_goals_away :: "int option"
  fx_elapsed :: "nat option"
  fx_status_short :: "string option"

record TeamRef =
  team_id :: nat
  team_name :: string
  team_logo :: "string option"

text \<open>\<open>hay.includes(needle)\<close>.\<close>

fun str_includes :: "string \<Rightarrow> string \<Rightarrow> bool" where
  "str_includes [] needle = (needle = [])"
| "str_includes (c # cs) needle =
     (take (length needle) (c # cs) = needle \<or> str_includes cs needle)"

text \<open>A string value that is truthy: present and not empty.\<close>

definition truthy :: "string option \<Rightarrow> bool" where
  "truthy s = (case s of None \<Rightarrow> False | Some str \<Rightarrow> str \<noteq> [])"

text \<open>The text \<open>"\<dots> "\<close> that precedes the seat number in a default player name (UTF-8).\<close>

definition playerLabel :: string where
  "playerLabel = [CHR 0xEC, CHR 0x84, CHR 0xA0, CHR 0xEC, CHR 0x88, CHR 0x98, CHR '' '']"

definition goalCount :: "FeedEvent list \<Rightarrow> FeedPlayer \<Rightarrow> nat" where
  "goalCount events p =
     length (filter (\<lambda>ev. ev_type ev = ''Goal'' \<and> ev_detail ev \<noteq> ''Missed Penalty'' \<and>
                          (ev_player_id ev = fp_id p \<or>
                           (truthy (fp_name p) \<and> ev_player_name ev = fp_name p))) events)"

definition hasCard :: "string \<Rightarrow> FeedEvent list \<Rightarrow> FeedPlayer \<Rightarrow> bool" where
  "hasCard cardName events p =
     list_ex (\<lambda>ev. ev_type ev = ''Card'' \<and> str_includes (ev_detail ev) cardName \<and>
                   (ev_player_id ev = fp_id p \<or> ev_player_name ev = fp_name p)) events"

text \<open>The callback of \<open>startXI.map\<close> in \<open>mapPlayersWithLog\<close>.\<close>

definition mapPlayer :: "FeedEvent list \<Rightarrow> nat \<Rightarrow> FeedPlayer \<Rightarrow> Player" where
  "mapPlayer events idx p =
     \<lparr>number = (case fp_number p of Some n \<Rightarrow> showNat n | None \<Rightarrow> showNat (idx + 1)),
      pname = (case fp_name p of
                 None \<Rightarrow> playerLabel @ showNat (idx + 1)
               | Some pName \<Rightarrow> if pName = [] then playerLabel @ showNat (idx + 1) else pName),
      yellowCard = Some (hasCard ''Yellow Card'' events p),
      redCard = Some (hasCard ''Red Card'' events p),
      goals = Some (goalCount events p)\<rparr>"

definition mapPlayersWithLog :: "FeedEvent list \<Rightarrow> FeedPlayer list \<Rightarrow> Player list" where
  "mapPlayersWithLog events startXI = map (\<lambda>(idx, p). mapPlayer events idx p) (enumerate 0 startXI)"

text \<open>
  The attribution rule in the words of the specification: a scoring event counts for a
  roster player when it is of type Goal, is not a missed penalty, and its player matches
  by identifier or by exact name.
\<close>

definition statedGoalCount :: "FeedEvent list \<Rightarrow> FeedPlayer \<Rightarrow> nat" where
  "statedGoalCount events p =
     length (filter (\<lambda>ev. ev_type ev = ''Goal'' \<and> ev_detail ev \<noteq> ''Missed Penalty'' \<and>
                          (ev_player_id ev = fp_id p \<or> ev_player_name ev = fp_name p)) events)"

subsection \<open>Loading a lineup\<close>

text \<open>
  The slug of a team name, \<open>name.toLowerCase()\<close> with every run of white space replaced
  by a hyphen, on ASCII letters and ASCII white space.
\<close>

definition toLowerAscii :: "char \<Rightarrow> char" where
  "toLowerAscii c =
     (if (65::nat) \<le> of_char c \<and> (of_char c :: nat) \<le> 90 then char_of (of_char c + (32::nat)) else c)"

function dashSpaces :: "string \<Rightarrow> string" where
  "dashSpaces [] = []"
| "dashSpaces (c # cs) =
     (if isWhite c then CHR ''-'' # dashSpaces (dropWhile isWhite cs) else c # dashSpaces cs)"
  by pat_completeness auto
termination
  by (relation "measure length") (auto simp: less_Suc_eq_le length_dropWhile_le)

definition slugOf :: "string \<Rightarrow> string" where
  "slugOf nm = dashSpaces (map toLowerAscii nm)"

text \<open>The logo object built for a team of the fixture: \<open>homeLogoData\<close>, \<open>awayLogoData\<close>.\<close>

definition logoData :: "TeamRef \<Rightarrow> Lineup \<Rightarrow> TeamLogo" where
  "logoData team lineup =
     \<lparr>logo_id = ''api/'' @ showNat (team_id team),
      logo_slug = slugOf (team_name team),
      logo_country = (case lu_team_country lineup of
                        None \<Rightarrow> ''unknown''
                      | Some c \<Rightarrow> if c = [] then ''unknown'' else c),
      logo_englishName = team_name team,
      logo_svg = None,
      logo_png = team_logo team\<rparr>"

text \<open>\<open>formatMatchTime\<close>: the elapsed minutes as \<open>MM:00\<close>.\<close>

definition formatMatchTime :: "nat option \<Rightarrow> string option" where
  "formatMatchTime minutes =
     (case minutes of
        None \<Rightarrow> None
      | Some mins \<Rightarrow>
          Some ((if length (showNat mins) < 2 then ''0'' @ showNat mins else showNat mins) @ '':00''))"

text \<open>
  The arguments of a scheduled call of \<open>broadcastCurrentPlayerPositions\<close>, with the delay
  of the timer that makes the call.
\<close>

record BroadcastCall =
  b_formation :: Formation
  b_formationB :: Formation
  b_players :: "Player list"
  b_playersB :: "Player list"
  b_overrides :: override_map
  b_overridesB :: override_map
  b_verticalMode :: bool
  b_scoreA :: int
  b_scoreB :: int
  b_teamNameA :: string
  b_teamNameB :: string
  b_teamLogoA :: "TeamLogo option"
  b_teamLogoB :: "TeamLogo option"
  b_matchTime :: "string option"
  b_matchStatus :: "string option"
  b_delay :: nat

text \<open>What the operator is told: the \<open>alert\<close> of a user-initiated load.\<close>

datatype notice = NoNotice | LineupLoaded | LineupNotFound | LoadFailed

text \<open>\<open>value || 0\<close> for a score of the feed.\<close>

definition scoreOr0 :: "int option \<Rightarrow> int" where
  "scoreOr0 g = (case g of None \<Rightarrow> 0 | Some v \<Rightarrow> v)"

text \<open>\<open>lineup.formation || '4-3-3'\<close>.\<close>

definition formationOrDefault :: "string option \<Rightarrow> string" where
  "formationOrDefault f = (case f of None \<Rightarrow> ''4-3-3'' | Some str \<Rightarrow> if str = [] then ''4-3-3'' else str)"

text \<open>
  \<open>loadMatchLineup(fixtureId, homeTeam, awayTeam, score, isAutoRefresh)\<close>. The two
  responses of the feed are arguments: \<open>lineupData\<close> is \<open>lineupData.response\<close> and
  \<open>fixtureData\<close> is \<open>fixtureData.response\<close>, \<open>None\<close> when the request or its decoding
  throws. Reading the events of \<open>fixtureData.response[0]\<close> throws when the list is empty.
  The result is the new state, the alert shown and the broadcast scheduled. The
  parameter \<open>score\<close> is not read.
\<close>

definition loadMatchLineup ::
  "int \<Rightarrow> TeamRef \<Rightarrow> TeamRef \<Rightarrow> bool \<Rightarrow> Lineup list option \<Rightarrow> Fixture list option \<Rightarrow>
   AppState \<Rightarrow> AppState \<times> notice \<times> BroadcastCall option" where
  "loadMatchLineup fixtureId homeTeam awayTeam isAutoRefresh lineupData fixtureData st =
     (let st0 = (if \<not> isAutoRefresh then st\<lparr>isLoadingMatches := True\<rparr> else st);
          finallyBlock = (\<lambda>s. if \<not> isAutoRefresh then s\<lparr>isLoadingMatches := False\<rparr> else s);
          failed = (finallyBlock st0, if \<not> isAutoRefresh then LoadFailed else NoNotice, None)
      in case lineupData of
           None \<Rightarrow> failed
         | Some lineups \<Rightarrow>
            (case fixtureData of
               None \<Rightarrow> failed
             | Some [] \<Rightarrow> failed
             | Some (latestFixture # _) \<Rightarrow>
                (let events = fx_events latestFixture
                 in if length lineups \<ge> 2
                    then
                      (let homeLineup = lineups ! 0;
                           awayLineup = lineups ! 1;
                           homeFormationStr = formationOrDefault (lu_formation homeLineup);
                           homePlayers = mapPlayersWithLog events (lu_startXI homeLineup);
                           homeFormation = \<lparr>name = homeFormationStr,
                                            lines = parseFormation (Some homeFormationStr)\<rparr>;
                           awayFormationStr = formationOrDefault (lu_formation awayLineup);
                           awayPlayers = mapPlayersWithLog events (lu_startXI awayLineup);
                           awayFormation = \<lparr>name = awayFormationStr,
                                            lines = parseFormation (Some awayFormationStr)\<rparr>;
                           homeLogoData = logoData homeTeam homeLineup;
                           awayLogoData = logoData awayTeam awayLineup;
                           st1 = st0\<lparr>formation := homeFormation, players := homePlayers,
                                     teamNameA := team_name homeTeam, teamLogoA := Some homeLogoData\<rparr>;
                           st2 = (if \<not> isAutoRefresh then st1\<lparr>overrides := Map.empty\<rparr> else st1);
                           st3 = st2\<lparr>formationB := awayFormation, playersB := awayPlayers,
                                     teamNameB := team_name awayTeam, teamLogoB := Some awayLogoData\<rparr>;
                           st4 = (if \<not> isAutoRefresh then st3\<lparr>overridesB := Map.empty\<rparr> else st3);
                           newScoreA = scoreOr0 (fx_goals_home latestFixture);
                           newScoreB = scoreOr0 (fx_goals_away latestFixture);
                           matchElapsedFormatted = formatMatchTime (fx_elapsed latestFixture);
                           matchStatus = fx_status_short latestFixture;
                           st5 = st4\<lparr>scoreA := newScoreA, scoreB := newScoreB\<rparr>;
                           call = \<lparr>b_formation = homeFormation, b_formationB = awayFormation,
                                   b_players = homePlayers, b_playersB = awayPlayers,
                                   b_overrides = (if isAutoRefresh then overrides st else Map.empty),
                                   b_overridesB = (if isAutoRefresh then overridesB st else Map.empty),
                                   b_verticalMode = verticalMode st,
                                   b_scoreA = newScoreA, b_scoreB = newScoreB,
                                   b_teamNameA = team_name homeTeam, b_teamNameB = team_name awayTeam,
                                   b_teamLogoA = Some homeLogoData, b_teamLogoB = Some awayLogoData,
                                   b_matchTime = matchElapsedFormatted, b_matchStatus = matchStatus,
                                   b_delay = 100\<rparr>;
                           st6 = (if \<not> isAutoRefresh
                                  then st5\<lparr>selectedFixtureId := Some fixtureId,
                                           autoRefreshEnabled := True, showLiveMatches := False\<rparr>
                                  else st5)
                       in (finallyBlock st6, if \<not> isAutoRefresh then LineupLoaded else NoNotice, Some call))
                    else (finallyBlock st0, if \<not> isAutoRefresh then LineupNotFound else NoNotice, None))))"

section \<open>Formation change and team swap\<close>

text \<open>\<open>lines.reduce((sum, line) => sum + line, 0)\<close>; a sum with NaN is NaN.\<close>

definition sumLines :: "jsnumber list \<Rightarrow> jsnumber" where
  "sumLines ls =
     foldl (\<lambda>sum line. case sum of None \<Rightarrow> None
                        | Some a \<Rightarrow> (case line of None \<Rightarrow> None | Some b \<Rightarrow> Some (a + b)))
           (Some 0) ls"

text \<open>
  \<open>Array.from({ length: newTotal }, (_, i) => ...)\<close> keeps the number and the name of the
  player at each index, when there is one and the field is not empty. The length is 0
  for NaN and for a negative total.
\<close>

definition resizePlayers :: "Player list \<Rightarrow> jsnumber \<Rightarrow> Player list" where
  "resizePlayers ps newTotal =
     map (\<lambda>i. \<lparr>number = (if i < length ps \<and> number (ps ! i) \<noteq> [] then number (ps ! i)
                          else showNat (i + 1)),
               pname = (if i < length ps \<and> pname (ps ! i) \<noteq> [] then pname (ps ! i)
                        else playerLabel @ showNat (i + 1)),
               yellowCard = None, redCard = None, goals = None\<rparr>)
         [0..<(case newTotal of None \<Rightarrow> 0 | Some n \<Rightarrow> nat n)]"

text \<open>The broadcast scheduled by a handler that passes \<open>null\<close> for time and status.\<close>

definition broadcastOf :: "AppState \<Rightarrow> nat \<Rightarrow> BroadcastCall" where
  "broadcastOf st delay =
     \<lparr>b_formation = formation st, b_formationB = formationB st,
      b_players = players st, b_playersB = playersB st,
      b_overrides = overrides st, b_overridesB = overridesB st,
      b_verticalMode = verticalMode st, b_scoreA = scoreA st, b_scoreB = scoreB st,
      b_teamNameA = teamNameA st, b_teamNameB = teamNameB st,
      b_teamLogoA = teamLogoA st, b_teamLogoB = teamLogoB st,
      b_matchTime = None, b_matchStatus = None, b_delay = delay\<rparr>"

definition updatePlayersForFormation :: "Formation \<Rightarrow> AppState \<Rightarrow> AppState \<times> BroadcastCall" where
  "updatePlayersForFormation newFormation st =
     (let newTotal = sumLines (lines newFormation);
          newPlayers = resizePlayers (players st) newTotal;
          st1 = st\<lparr>players := newPlayers, formation := newFormation, overrides := Map.empty\<rparr>
      in (st1, (broadcastOf st 0)\<lparr>b_formation := newFormation, b_players := newPlayers,
                                   b_overrides := Map.empty\<rparr>))"

definition updatePlayersForFormationB :: "Formation \<Rightarrow> AppState \<Rightarrow> AppState \<times> BroadcastCall" where
  "updatePlayersForFormationB newFormation st =
     (let newTotal = sumLines (lines newFormation);
          newPlayers = resizePlayers (playersB st) newTotal;
          st1 = st\<lparr>playersB := newPlayers, formationB := newFormation, overridesB := Map.empty\<rparr>
      in (st1, (broadcastOf st 0)\<lparr>b_formationB := newFormation, b_playersB := newPlayers,
                                   b_overridesB := Map.empty\<rparr>))"

definition handleSwapTeams :: "AppState \<Rightarrow> AppState" where
  "handleSwapTeams st =
     (let tempFormation = formation st;
          tempPlayers = players st;
          tempUniformColor = uniformColor st;
          tempTeamName = teamNameA st;
          tempTeamLogo = teamLogoA st;
          tempOverrides = overrides st
      in st\<lparr>formation := formationB st, players := playersB st,
            uniformColor := uniformColorB st, teamNameA := teamNameB st,
            teamLogoA := teamLogoB st, overrides := overridesB st,
            formationB := tempFormation, playersB := tempPlayers,
            uniformColorB := tempUniformColor, teamNameB := tempTeamName,
            teamLogoB := tempTeamLogo, overridesB := tempOverrides\<rparr>)"

section \<open>The initial state\<close>

text \<open>The \<open>useState\<close> and \<open>useRef\<close> defaults of \<open>App\<close>, before the pitch elements mount.\<close>

definition defaultPlayers :: "Player list" where
  "defaultPlayers =
     map (\<lambda>i. \<lparr>number = showNat (i + 1), pname = playerLabel @ showNat (i + 1),
               yellowCard = None, redCard = None, goals = None\<rparr>) [0..<11]"

definition initialState :: AppState where
  "initialState =
     \<lparr>formation = \<lparr>name = ''4-3-3'', lines = [Some 1, Some 4, Some 3, Some 3]\<rparr>,
      players = defaultPlayers, uniformColor = ''#2563eb'', teamNameA = [], teamLogoA = None,
      overrides = Map.empty,
      formationB = \<lparr>name = ''4-3-3'', lines = [Some 1, Some 4, Some 3, Some 3]\<rparr>,
      playersB = defaultPlayers, uniformColorB = ''#dc2626'', teamNameB = [], teamLogoB = None,
      overridesB = Map.empty,
      scoreA = 0, scoreB = 0, verticalMode = False,
      selectedPlayer = None,
      editingPlayer = Some \<lparr>number = [], pname = [], yellowCard = Some False,
                             redCard = Some False, goals = None\<rparr>,
      selectedPlayerB = None,
      editingPlayerB = Some \<lparr>number = [], pname = [], yellowCard = Some False,
                              redCard = Some False, goals = None\<rparr>,
      showLiveMatches = False, isLoadingMatches = False,
      selectedFixtureId = None, autoRefreshEnabled = False,
      fieldRef = None, fieldRefB = None,
      draggingRef = None, draggingRefB = None,
      singleClickTimerRef = None, singleClickTimerRefB = None,
      broadcastTimerRef = None\<rparr>"

text \<open>
  The state once the pitch elements have mounted, each with a bounding rectangle of 100
  by 100 pixels at the origin, so that a client coordinate is its own percentage.
\<close>

definition mountedState :: AppState where
  "mountedState =
     initialState\<lparr>fieldRef := Some \<lparr>r_left = 0, r_top = 0, r_width = 100, r_height = 100\<rparr>,
                  fieldRefB := Some \<lparr>r_left = 0, r_top = 0, r_width = 100, r_height = 100\<rparr>\<rparr>"

section \<open>Properties of the layout calculator\<close>

lemma length_lineSeats: "length (lineSeats (Some (int n)) yl) = n"
  by (simp add: lineSeats_def)

lemma length_placeLines: "length (placeLines len i (counts ns)) = sum_list ns"
  by (induction ns arbitrary: i) (simp_all add: counts_def length_lineSeats)

lemma nth_lineSeats:
  "k < n \<Longrightarrow> lineSeats (Some (int n)) yl ! k = \<lparr>pos_x = seatX (int n) k, pos_y = yl\<rparr>"
  by (simp add: lineSeats_def)

lemma nth_placeLines:
  "i < length ns \<Longrightarrow> k < ns ! i \<Longrightarrow>
   placeLines len j (counts ns) ! seatIndex ns i k =
     \<lparr>pos_x = seatX (int (ns ! i)) k, pos_y = lineY len (j + i)\<rparr>"
proof (induction ns arbitrary: i j)
  case Nil
  then show ?case by simp
next
  case (Cons n ns)
  show ?case
  proof (cases i)
    case 0
    with Cons.prems show ?thesis
      by (simp add: counts_def seatIndex_def nth_append length_lineSeats nth_lineSeats)
  next
    case (Suc i')
    with Cons.prems have a: "i' < length ns" and b: "k < ns ! i'" by simp_all
    have "placeLines len (Suc j) (counts ns) ! seatIndex ns i' k =
            \<lparr>pos_x = seatX (int (ns ! i')) k, pos_y = lineY len (Suc j + i')\<rparr>"
      by (rule Cons.IH [OF a b])
    then show ?thesis using Suc
      by (simp add: counts_def seatIndex_def nth_append length_lineSeats)
  qed
qed

lemma lineY_first: "lineY len 0 = 90"
  by (simp add: lineY_def)

lemma lineY_pos: "0 < i \<Longrightarrow> lineY len i = 90 - (80 / (real len - 1)) * real i"
  by (simp add: lineY_def Let_def)

lemma lineY_last:
  assumes "2 \<le> len"
  shows "lineY len (len - 1) = 10"
proof -
  have r: "real (len - 1) = real len - 1" using assms by (simp add: of_nat_diff)
  have nz: "real len - 1 \<noteq> 0" using assms by simp
  have g: "\<And>x::real. x \<noteq> 0 \<Longrightarrow> (80 / x) * x = 80" by simp
  have "(80 / (real len - 1)) * (real len - 1) = 80" using nz by (rule g)
  then have "90 - (80 / (real len - 1)) * real (len - 1) = 10" by (simp only: r)
  moreover have "0 < len - 1" using assms by simp
  ultimately show ?thesis by (simp only: lineY_pos)
qed

lemma length_counts: "length (counts ns) = length ns"
  by (simp add: counts_def)

lemma lineY_decreasing:
  assumes "2 \<le> len" "i < j"
  shows "lineY len j < lineY len i"
proof -
  have sp: "0 < 80 / (real len - 1)" using assms(1) by simp
  show ?thesis
  proof (cases "i = 0")
    case True
    have "0 < real j" using assms(2) by simp
    then have "0 < (80 / (real len - 1)) * real j" using sp by simp
    then show ?thesis using True assms(2) by (simp add: lineY_first lineY_pos)
  next
    case False
    have "real i < real j" using assms(2) by simp
    then have "(80 / (real len - 1)) * real i < (80 / (real len - 1)) * real j"
      using sp by (simp only: mult_strict_left_mono)
    then show ?thesis using False assms(2) by (simp add: lineY_pos)
  qed
qed

lemma lineY_bounds:
  assumes "2 \<le> len" "i < len"
  shows "10 \<le> lineY len i \<and> lineY len i \<le> 90"
proof -
  have lo: "10 \<le> lineY len i"
  proof (cases "i = len - 1")
    case True then show ?thesis using lineY_last [OF assms(1)] by simp
  next
    case False
    then have "i < len - 1" using assms(2) by simp
    then have "lineY len (len - 1) < lineY len i" by (rule lineY_decreasing [OF assms(1)])
    then show ?thesis using lineY_last [OF assms(1)] by simp
  qed
  have hi: "lineY len i \<le> 90"
  proof (cases "i = 0")
    case True then show ?thesis by (simp add: lineY_first)
  next
    case False
    then have "lineY len i < lineY len 0" by (intro lineY_decreasing [OF assms(1)]) simp
    then show ?thesis by (simp add: lineY_first)
  qed
  show ?thesis using lo hi by simp
qed

lemma set_placeLines:
  "p \<in> set (placeLines len j ls) \<Longrightarrow> \<exists>i. j \<le> i \<and> i < j + length ls \<and> pos_y p = lineY len i"
proof (induction ls arbitrary: j)
  case Nil
  then show ?case by simp
next
  case (Cons c ls)
  from Cons.prems have "p \<in> set (lineSeats c (lineY len j)) \<or> p \<in> set (placeLines len (Suc j) ls)"
    by simp
  then show ?case
  proof
    assume "p \<in> set (lineSeats c (lineY len j))"
    then have "pos_y p = lineY len j"
      by (auto simp: lineSeats_def split: option.splits)
    then show ?thesis by (intro exI [of _ j]) simp
  next
    assume "p \<in> set (placeLines len (Suc j) ls)"
    from Cons.IH [OF this] obtain i where "Suc j \<le> i" "i < Suc j + length ls" "pos_y p = lineY len i"
      by blast
    then show ?thesis by (intro exI [of _ i]) simp
  qed
qed

text \<open>
  Claim C1. For every formation of at least two lines, each a count of players,
  \<open>calcPositions\<close> returns exactly \<open>sum(lines)\<close> positions; every seat of line \<open>i\<close> has
  the vertical coordinate of that line; the goalkeeper line is at 90, the last line at
  10, the coordinate strictly decreases as the line index grows, and so every seat lies
  between 10 and 90. For the formation 4-4-2 the result has 11 positions, seat 0 at 90
  and seats 9 and 10 at 10.
\<close>

theorem calcPositions_layout:
  assumes "2 \<le> length ns" and "lines f = counts ns"
  shows "length (calcPositions f) = sum_list ns \<and>
         (\<forall>i k. i < length ns \<and> k < ns ! i \<longrightarrow>
            pos_y (calcPositions f ! seatIndex ns i k) = lineY (length ns) i) \<and>
         lineY (length ns) 0 = 90 \<and>
         lineY (length ns) (length ns - 1) = 10 \<and>
         (\<forall>i j. i < j \<and> j < length ns \<longrightarrow> lineY (length ns) j < lineY (length ns) i) \<and>
         (\<forall>p \<in> set (calcPositions f). 10 \<le> pos_y p \<and> pos_y p \<le> 90)"
proof -
  have len: "length (lines f) = length ns" using assms(2) by (simp add: counts_def)
  have c1: "length (calcPositions f) = sum_list ns"
    by (simp add: calcPositions_def assms(2) length_placeLines)
  have c2: "\<forall>i k. i < length ns \<and> k < ns ! i \<longrightarrow>
            pos_y (calcPositions f ! seatIndex ns i k) = lineY (length ns) i"
    using nth_placeLines [of _ ns _ "length ns" 0]
    by (simp add: calcPositions_def assms(2) length_counts)
  have c5: "\<forall>i j. i < j \<and> j < length ns \<longrightarrow> lineY (length ns) j < lineY (length ns) i"
    using lineY_decreasing [OF assms(1)] by blast
  have c6: "\<forall>p \<in> set (calcPositions f). 10 \<le> pos_y p \<and> pos_y p \<le> 90"
  proof
    fix p assume "p \<in> set (calcPositions f)"
    then have "p \<in> set (placeLines (length ns) 0 (lines f))"
      by (simp add: calcPositions_def len)
    from set_placeLines [OF this] obtain i where "i < length ns" "pos_y p = lineY (length ns) i"
      using len by auto
    then show "10 \<le> pos_y p \<and> pos_y p \<le> 90"
      using lineY_bounds [OF assms(1)] by simp
  qed
  show ?thesis using c1 c2 c5 c6 lineY_first lineY_last [OF assms(1)] by blast
qed

theorem calcPositions_layout_witness:
  "length (calcPositions \<lparr>name = ''4-4-2'', lines = [Some 1, Some 4, Some 4, Some 2]\<rparr>) = 11 \<and>
   pos_y (calcPositions \<lparr>name = ''4-4-2'', lines = [Some 1, Some 4, Some 4, Some 2]\<rparr> ! 0) = 90 \<and>
   pos_y (calcPositions \<lparr>name = ''4-4-2'', lines = [Some 1, Some 4, Some 4, Some 2]\<rparr> ! 9) = 10 \<and>
   pos_y (calcPositions \<lparr>name = ''4-4-2'', lines = [Some 1, Some 4, Some 4, Some 2]\<rparr> ! 10) = 10"
proof -
  let ?f = "\<lparr>name = ''4-4-2'', lines = [Some 1, Some 4, Some 4, Some 2]\<rparr>"
  let ?ns = "[1, 4, 4, 2::nat]"
  have h1: "2 \<le> length ?ns" by simp
  have h2: "lines ?f = counts ?ns" by (simp add: counts_def)
  note t = calcPositions_layout [OF h1 h2]
  have a: "length (calcPositions ?f) = sum_list ?ns" using t by (rule conjunct1)
  have y: "\<And>i k. i < length ?ns \<Longrightarrow> k < ?ns ! i \<Longrightarrow>
            pos_y (calcPositions ?f ! seatIndex ?ns i k) = lineY (length ?ns) i"
    using t by blast
  have first: "lineY (length ?ns) 0 = 90" using t by blast
  have last: "lineY (length ?ns) (length ?ns - 1) = 10" using t by blast
  have s0: "seatIndex ?ns 0 0 = 0" by (simp add: seatIndex_def)
  have s9: "seatIndex ?ns 3 0 = 9" by (simp add: seatIndex_def numeral_3_eq_3)
  have s10: "seatIndex ?ns 3 1 = 10" by (simp add: seatIndex_def numeral_3_eq_3)
  have l3: "length ?ns - 1 = 3" by simp
  have "pos_y (calcPositions ?f ! 0) = 90"
    using y [of 0 0] first by (simp only: s0) simp
  moreover have "pos_y (calcPositions ?f ! 9) = 10"
    using y [of 3 0] last by (simp only: s9 l3) simp
  moreover have "pos_y (calcPositions ?f ! 10) = 10"
    using y [of 3 1] last by (simp only: s10 l3) simp
  moreover have "length (calcPositions ?f) = 11" using a by simp
  ultimately show ?thesis by blast
qed


subsection \<open>Rounding to the nearest double\<close>

lemma rne_err: "\<bar>of_int (rne z) - z\<bar> \<le> 1 / 2"
proof -
  have a: "of_int \<lfloor>z\<rfloor> \<le> z" and b: "z < of_int \<lfloor>z\<rfloor> + 1" by linarith+
  show ?thesis using a b by (auto simp: rne_def Let_def)
qed

lemma floor_log_bounds:
  assumes "0 < a"
  shows "2 powr of_int \<lfloor>log 2 a\<rfloor> \<le> a"
proof -
  have "of_int \<lfloor>log 2 a\<rfloor> \<le> log 2 a" by simp
  then have "2 powr of_int \<lfloor>log 2 a\<rfloor> \<le> 2 powr log 2 a" by (simp only: powr_le_cancel_iff) 
  then show ?thesis using assms by simp
qed

lemma fl_err: "\<bar>fl v - v\<bar> \<le> \<bar>v\<bar> * 2 powr (- 53)"
proof (cases "v = 0")
  case True
  then show ?thesis by (simp add: fl_def)
next
  case False
  define e where "e = \<lfloor>log 2 \<bar>v\<bar>\<rfloor>"
  define ulp :: real where "ulp = 2 powr (of_int e - 52)"
  have up: "0 < ulp" by (simp add: ulp_def)
  have f: "fl v = of_int (rne (v / ulp)) * ulp"
    using False by (simp add: fl_def Let_def e_def ulp_def)
  have "\<bar>fl v - v\<bar> = \<bar>of_int (rne (v / ulp)) - v / ulp\<bar> * ulp"
  proof -
    have "fl v - v = (of_int (rne (v / ulp)) - v / ulp) * ulp"
      using up by (simp add: f algebra_simps)
    then show ?thesis using up by (simp add: abs_mult)
  qed
  also have "\<dots> \<le> (1 / 2) * ulp"
    using rne_err [of "v / ulp"] up by (simp only: mult_right_mono less_imp_le)
  also have "(1 / 2) * ulp = 2 powr of_int e * 2 powr (- 53)"
  proof -
    have "(2::real) powr (of_int e - 52) = 2 powr (of_int e + (- 53) + 1)" by simp
    also have "\<dots> = 2 powr of_int e * 2 powr (- 53) * 2 powr 1"
      by (simp only: powr_add)
    finally show ?thesis by (simp add: ulp_def)
  qed
  also have "\<dots> \<le> \<bar>v\<bar> * 2 powr (- 53)"
  proof -
    have "0 < \<bar>v\<bar>" using False by simp
    then have "2 powr of_int e \<le> \<bar>v\<bar>" unfolding e_def by (rule floor_log_bounds)
    then show ?thesis by (simp only: mult_right_mono powr_ge_zero)
  qed
  finally show ?thesis .
qed

lemma two_powr_m53: "(2::real) powr (- 53) \<le> 1 / 10 ^ 15"
proof -
  have "(2::real) powr (- 53) = inverse (2 powr 53)" by (rule powr_minus)
  also have "(2::real) powr 53 = 2 ^ 53" by simp
  finally show ?thesis by simp
qed

lemma fl_rel: "\<bar>fl v - v\<bar> \<le> \<bar>v\<bar> / 10 ^ 15"
proof -
  have "\<bar>v\<bar> * 2 powr (- 53) \<le> \<bar>v\<bar> * (1 / 10 ^ 15)"
    using two_powr_m53 by (simp only: mult_left_mono abs_ge_zero)
  then show ?thesis using fl_err [of v] by simp
qed

lemma fl_eval:
  assumes "2 ^ 52 \<le> \<bar>v\<bar> * 2 ^ n" and "\<bar>v\<bar> * 2 ^ n < 2 ^ 53"
  shows "fl v = of_int (rne (v * 2 ^ n)) / 2 ^ n"
proof -
  have nz: "v \<noteq> 0" using assms(1) by auto
  have pos: "0 < \<bar>v\<bar>" using nz by simp
  have lo: "2 powr (52 - real n) \<le> \<bar>v\<bar>"
  proof -
    have "(2::real) powr (52 - real n) = 2 powr 52 / 2 powr real n" by (rule powr_diff)
    also have "\<dots> = 2 ^ 52 / 2 ^ n" by (simp add: powr_realpow)
    also have "\<dots> \<le> \<bar>v\<bar>" using assms(1) by (simp add: divide_le_eq)
    finally show ?thesis .
  qed
  have hi: "\<bar>v\<bar> < 2 powr (53 - real n)"
  proof -
    have "\<bar>v\<bar> < 2 ^ 53 / 2 ^ n" using assms(2) by (simp add: less_divide_eq)
    also have "\<dots> = 2 powr 53 / 2 powr real n" by (simp add: powr_realpow)
    also have "\<dots> = 2 powr (53 - real n)" by (rule powr_diff [symmetric])
    finally show ?thesis .
  qed
  have l1: "52 - real n \<le> log 2 \<bar>v\<bar>"
    using lo pos by (simp add: le_log_iff)
  have l2: "log 2 \<bar>v\<bar> < 53 - real n"
    using hi pos by (simp add: log_less_iff)
  have e: "\<lfloor>log 2 \<bar>v\<bar>\<rfloor> = 52 - int n"
    using l1 l2 by (intro floor_unique) simp_all
  have ulp: "(2::real) powr (of_int (52 - int n) - 52) = 1 / 2 ^ n"
  proof -
    have "(2::real) powr (of_int (52 - int n) - 52) = 2 powr (- real n)" by simp
    also have "\<dots> = inverse (2 powr real n)" by (rule powr_minus)
    also have "\<dots> = 1 / 2 ^ n" by (simp add: powr_realpow divide_inverse)
    finally show ?thesis .
  qed
  have "fl v = (let e = \<lfloor>log 2 \<bar>v\<bar>\<rfloor>; ulp = 2 powr (of_int e - 52)
                in of_int (rne (v / ulp)) * ulp)"
    using nz by (simp only: fl_def if_False)
  then have "fl v = of_int (rne (v / (1 / 2 ^ n))) * (1 / 2 ^ n)"
    by (simp only: Let_def e ulp)
  then show ?thesis by simp
qed

lemma fl_12: "fl (12 / 10) = 5404319552844595 / 2 ^ 52"
  by (subst fl_eval [where n = 52]) (simp_all add: rne_def Let_def)

lemma fl_a1: "fl (2 / 3) = 6004799503160661 / 2 ^ 53"
  by (subst fl_eval [where n = 53]) (simp_all add: rne_def Let_def)

lemma fl_a2: "fl (6004799503160661 / 2 ^ 53 * 100) = 2345624805922133 / 2 ^ 45"
  by (subst fl_eval [where n = 46]) (simp_all add: rne_def Let_def)

lemma fl_a3: "fl (2345624805922133 / 2 ^ 45 - 50) = 586406201480533 / 2 ^ 45"
  by (subst fl_eval [where n = 48]) (simp_all add: rne_def Let_def)

lemma fl_a4: "fl (586406201480533 / 2 ^ 45 * (5404319552844595 / 2 ^ 52)) = 5629499534213117 / 2 ^ 48"
  by (subst fl_eval [where n = 48]) (simp_all add: rne_def Let_def)

lemma fl_a5: "fl (50 + 5629499534213117 / 2 ^ 48) = 4925812092436479 / 2 ^ 46"
  by (subst fl_eval [where n = 46]) (simp_all add: rne_def Let_def)

lemma seatX_2_0: "seatX 2 0 = 4925812092436479 / 2 ^ 46"
proof -
  have q: "real_of_int (2 - int 0) / real_of_int (2 + 1) = 2 / 3" by simp
  show ?thesis
    unfolding seatX_def Let_def q fl_a1 fl_a2 fl_a3 fl_12 fl_a4 fl_a5 ..
qed

lemma fl_b1: "fl (1 / 3) = 6004799503160661 / 2 ^ 54"
  by (subst fl_eval [where n = 54]) (simp_all add: rne_def Let_def)

lemma fl_b2: "fl (6004799503160661 / 2 ^ 54 * 100) = 2345624805922133 / 2 ^ 46"
  by (subst fl_eval [where n = 47]) (simp_all add: rne_def Let_def)

lemma fl_b3: "fl (2345624805922133 / 2 ^ 46 - 50) = - (1172812402961067 / 2 ^ 46)"
  by (subst fl_eval [where n = 48]) (simp_all add: rne_def Let_def)

lemma fl_b4: "fl ((- (1172812402961067 / 2 ^ 46)) * (5404319552844595 / 2 ^ 52)) = - (5629499534213121 / 2 ^ 48)"
  by (subst fl_eval [where n = 48]) (simp_all add: rne_def Let_def)

lemma fl_b5: "fl (50 + (- (5629499534213121 / 2 ^ 48))) = 8444249301319679 / 2 ^ 48"
  by (subst fl_eval [where n = 48]) (simp_all add: rne_def Let_def)

lemma seatX_2_1: "seatX 2 1 = 8444249301319679 / 2 ^ 48"
proof -
  have q: "real_of_int (2 - int 1) / real_of_int (2 + 1) = 1 / 3" by simp
  show ?thesis
    unfolding seatX_def Let_def q fl_b1 fl_b2 fl_b3 fl_12 fl_b4 fl_b5 ..
qed


lemma fl_half: "fl (1 / 2) = 1 / 2"
  by (subst fl_eval [where n = 53]) (simp_all add: rne_def Let_def)

lemma fl_50: "fl 50 = 50"
  by (subst fl_eval [where n = 47]) (simp_all add: rne_def Let_def)

lemma fl_0: "fl 0 = 0"
  by (simp add: fl_def)

lemma seatX_1_0: "seatX 1 0 = 50"
proof -
  have q: "real_of_int (1 - int 0) / real_of_int (1 + 1) = 1 / 2" by simp
  have h: "(1::real) / 2 * 100 = 50" by simp
  have z: "(50::real) - 50 = 0" by simp
  have m: "(0::real) * fl (12 / 10) = 0" by simp
  have p: "(50::real) + 0 = 50" by simp
  show ?thesis
    unfolding seatX_def Let_def q fl_half h fl_50 z fl_0 m p ..
qed

text \<open>
  One rounding step: an approximation within \<open>d\<close> of a target bounded by \<open>B\<close> stays
  within \<open>d + (B + d) / 10^15\<close> of it.
\<close>

lemma fl_step:
  assumes "\<bar>y - t\<bar> \<le> d" and "\<bar>t\<bar> \<le> B"
  shows "\<bar>fl y - t\<bar> \<le> d + (B + d) / 10 ^ 15"
proof -
  have "\<bar>y\<bar> \<le> B + d" using assms by linarith
  then have "\<bar>y\<bar> / 10 ^ 15 \<le> (B + d) / 10 ^ 15" by (simp add: divide_right_mono)
  then have "\<bar>fl y - y\<bar> \<le> (B + d) / 10 ^ 15" using fl_rel [of y] by linarith
  then show ?thesis using assms(1) by linarith
qed

lemma mult_err:
  fixes a c A C da dc BA BC :: real
  assumes "\<bar>a - A\<bar> \<le> da" and "\<bar>c - C\<bar> \<le> dc" and "\<bar>A\<bar> \<le> BA" and "\<bar>C\<bar> \<le> BC"
  shows "\<bar>a * c - A * C\<bar> \<le> (BA + da) * dc + BC * da"
proof -
  have e: "a * c - A * C = a * (c - C) + C * (a - A)" by (simp add: algebra_simps)
  have a: "\<bar>a\<bar> \<le> BA + da" using assms(1,3) by linarith
  have "\<bar>a * (c - C)\<bar> \<le> (BA + da) * dc"
    unfolding abs_mult using a assms(2) by (intro mult_mono) simp_all
  moreover have "\<bar>C * (a - A)\<bar> \<le> BC * da"
    unfolding abs_mult using assms(1,4) by (intro mult_mono) simp_all
  ultimately show ?thesis unfolding e by linarith
qed

lemma seatX_err:
  assumes "k < n"
  shows "\<bar>seatX (int n) k - idealX n k\<bar> \<le> 1 / 10 ^ 12"
proof -
  define r where "r = real_of_int (int n - int k) / real_of_int (int n + 1)"
  have r0: "0 \<le> r" using assms by (simp add: r_def)
  have r1: "r \<le> 1" using assms by (simp add: r_def)
  have rb: "\<bar>r\<bar> \<le> 1" using r0 r1 by simp
  define a1 where "a1 = fl r"
  define a2 where "a2 = fl (a1 * 100)"
  define a3 where "a3 = fl (a2 - 50)"
  define c where "c = fl (12 / 10)"
  define a4 where "a4 = fl (a3 * c)"
  define a5 where "a5 = fl (50 + a4)"
  have sx: "seatX (int n) k = a5"
    by (simp add: seatX_def Let_def a5_def a4_def a3_def a2_def a1_def c_def r_def)
  have ix: "idealX n k = 50 + (r * 100 - 50) * (12 / 10)"
    by (simp add: idealX_def r_def)
  have e1: "\<bar>a1 - r\<bar> \<le> 1 / 10 ^ 15"
    using fl_step [of r r 0 1] rb by (simp add: a1_def)
  have e2: "\<bar>a2 - r * 100\<bar> \<le> 201 / 10 ^ 15"
  proof -
    have "\<bar>a1 * 100 - r * 100\<bar> \<le> 100 / 10 ^ 15" using e1 by linarith
    moreover have "\<bar>r * 100\<bar> \<le> 100" using rb by simp
    ultimately have "\<bar>fl (a1 * 100) - r * 100\<bar> \<le> 100 / 10 ^ 15 + (100 + 100 / 10 ^ 15) / 10 ^ 15"
      by (rule fl_step)
    then show ?thesis by (simp add: a2_def)
  qed
  have e3: "\<bar>a3 - (r * 100 - 50)\<bar> \<le> 252 / 10 ^ 15"
  proof -
    have "\<bar>(a2 - 50) - (r * 100 - 50)\<bar> \<le> 201 / 10 ^ 15" using e2 by simp
    moreover have "\<bar>r * 100 - 50\<bar> \<le> 50" using r0 r1 by (simp add: abs_le_iff)
    ultimately have "\<bar>fl (a2 - 50) - (r * 100 - 50)\<bar> \<le> 201 / 10 ^ 15 + (50 + 201 / 10 ^ 15) / 10 ^ 15"
      by (rule fl_step)
    then show ?thesis by (simp add: a3_def)
  qed
  have ec: "\<bar>c - 12 / 10\<bar> \<le> 2 / 10 ^ 15"
    using fl_step [of "12 / 10" "12 / 10" 0 "12 / 10"] by (simp add: c_def)
  have e4: "\<bar>a4 - (r * 100 - 50) * (12 / 10)\<bar> \<le> 466 / 10 ^ 15"
  proof -
    have b: "\<bar>r * 100 - 50\<bar> \<le> 50" using r0 r1 by (simp add: abs_le_iff)
    have c12: "\<bar>12 / 10 :: real\<bar> \<le> 12 / 10" by simp
    have m: "\<bar>a3 * c - (r * 100 - 50) * (12 / 10)\<bar> \<le>
               (50 + 252 / 10 ^ 15) * (2 / 10 ^ 15) + (12 / 10) * (252 / 10 ^ 15)"
      by (rule mult_err [OF e3 ec b c12])
    then have m': "\<bar>a3 * c - (r * 100 - 50) * (12 / 10)\<bar> \<le> 404 / 10 ^ 15" by simp
    have t: "\<bar>(r * 100 - 50) * (12 / 10)\<bar> \<le> 60" using b by (simp add: abs_mult)
    have "\<bar>fl (a3 * c) - (r * 100 - 50) * (12 / 10)\<bar> \<le> 404 / 10 ^ 15 + (60 + 404 / 10 ^ 15) / 10 ^ 15"
      using m' t by (rule fl_step)
    then show ?thesis by (simp add: a4_def)
  qed
  have e5: "\<bar>a5 - (50 + (r * 100 - 50) * (12 / 10))\<bar> \<le> 577 / 10 ^ 15"
  proof -
    have b: "\<bar>r * 100 - 50\<bar> \<le> 50" using r0 r1 by (simp add: abs_le_iff)
    have t: "\<bar>(r * 100 - 50) * (12 / 10)\<bar> \<le> 60" using b by (simp add: abs_mult)
    have "\<bar>(50 + a4) - (50 + (r * 100 - 50) * (12 / 10))\<bar> \<le> 466 / 10 ^ 15" using e4 by simp
    moreover have "\<bar>50 + (r * 100 - 50) * (12 / 10)\<bar> \<le> 110" using t by linarith
    ultimately have "\<bar>fl (50 + a4) - (50 + (r * 100 - 50) * (12 / 10))\<bar> \<le>
                       466 / 10 ^ 15 + (110 + 466 / 10 ^ 15) / 10 ^ 15"
      by (rule fl_step)
    then show ?thesis by (simp add: a5_def)
  qed
  show ?thesis using e5 by (simp add: sx ix)
qed


subsection \<open>Horizontal coordinates of a line\<close>

lemma idealX_eq: "idealX n k = 110 - 120 * (real k + 1) / (real n + 1)"
proof -
  have nz: "real n + 1 \<noteq> 0" by (simp add: add_nonneg_eq_0_iff)
  have "real_of_int (int n - int k) = (real n + 1) - (real k + 1)" by simp
  then have "real_of_int (int n - int k) / (real n + 1) = 1 - (real k + 1) / (real n + 1)"
    using nz by (simp only: diff_divide_distrib) simp
  moreover have "real_of_int (int n + 1) = real n + 1" by simp
  ultimately have "idealX n k = 50 + ((1 - (real k + 1) / (real n + 1)) * 100 - 50) * 1.2"
    by (simp only: idealX_def)
  then show ?thesis by (simp add: algebra_simps)
qed

lemma idealX_step: "idealX n k - idealX n (Suc k) = 120 / (real n + 1)"
proof -
  have "120 * (real (Suc k) + 1) / (real n + 1) - 120 * (real k + 1) / (real n + 1)
          = 120 / (real n + 1)"
    by (simp add: diff_divide_distrib [symmetric])
  then show ?thesis unfolding idealX_eq by linarith
qed

lemma idealX_mono:
  assumes "k < k'"
  shows "idealX n k' < idealX n k"
proof -
  have pos: "0 < real n + 1" by (simp add: add_nonneg_pos)
  have "120 * (real k + 1) < 120 * (real k' + 1)" using assms by simp
  then have "120 * (real k + 1) / (real n + 1) < 120 * (real k' + 1) / (real n + 1)"
    using pos by (simp only: divide_strict_right_mono)
  then show ?thesis unfolding idealX_eq by linarith
qed

lemma idealX_sym:
  assumes "k < n"
  shows "idealX n k + idealX n (n - 1 - k) = 100"
proof -
  have nz: "real n + 1 \<noteq> 0" by (simp add: add_nonneg_eq_0_iff)
  have r: "real (n - 1 - k) = real n - 1 - real k" using assms by (simp add: of_nat_diff)
  have "120 * (real k + 1) / (real n + 1) + 120 * (real (n - 1 - k) + 1) / (real n + 1)
          = 120 * (real n + 1) / (real n + 1)"
    by (simp only: r add_divide_distrib [symmetric]) (simp add: algebra_simps)
  also have "\<dots> = 120"
  proof -
    have g: "\<And>x::real. x \<noteq> 0 \<Longrightarrow> 120 * x / x = 120" by simp
    show ?thesis using nz by (rule g)
  qed
  finally show ?thesis unfolding idealX_eq by linarith
qed

lemma fl_sum_442:
  "fl (4925812092436479 / 2 ^ 46 + 8444249301319679 / 2 ^ 48) = 7036874417766399 / 2 ^ 46"
  by (subst fl_eval [where n = 46]) (simp_all add: rne_def Let_def)

lemma pos_x_seat:
  assumes "lines f = counts ns" and "i < length ns" and "m < ns ! i"
  shows "pos_x (calcPositions f ! seatIndex ns i m) = seatX (int (ns ! i)) m"
  using nth_placeLines [OF assms(2,3), of "length ns" 0]
  by (simp add: calcPositions_def assms(1) length_counts)

text \<open>
  Claim C6, as amended. In a line of \<open>n\<close> seats the horizontal coordinate of seat \<open>k\<close>
  is, up to the rounding of double arithmetic (within \<open>10^-12\<close>), the evenly spaced
  base \<open>(n - k) / (n + 1) * 100\<close> widened by the factor 1.2 about the centre 50. So seat
  \<open>k\<close> and seat \<open>n - 1 - k\<close> are symmetric about 50 up to rounding (their coordinates
  add up to 100 within \<open>2 * 10^-12\<close>), neighbouring seats are \<open>120 / (n + 1)\<close> apart
  within \<open>2 * 10^-12\<close>, and in a line of at most \<open>10^9\<close> seats the coordinate strictly
  decreases with the roster index in the line, so that roster index 0 of the line has
  the largest one.
\<close>

theorem calcPositions_line_x:
  assumes "lines f = counts ns" and "i < length ns" and "k < ns ! i"
  shows "\<bar>pos_x (calcPositions f ! seatIndex ns i k) - idealX (ns ! i) k\<bar> \<le> 1 / 10 ^ 12 \<and>
         idealX (ns ! i) k + idealX (ns ! i) (ns ! i - 1 - k) = 100 \<and>
         \<bar>pos_x (calcPositions f ! seatIndex ns i k) +
            pos_x (calcPositions f ! seatIndex ns i (ns ! i - 1 - k)) - 100\<bar> \<le> 2 / 10 ^ 12 \<and>
         (Suc k < ns ! i \<longrightarrow>
            \<bar>pos_x (calcPositions f ! seatIndex ns i k) -
               pos_x (calcPositions f ! seatIndex ns i (Suc k)) - 120 / (real (ns ! i) + 1)\<bar>
              \<le> 2 / 10 ^ 12) \<and>
         (ns ! i \<le> 10 ^ 9 \<longrightarrow>
            (\<forall>k'. k < k' \<and> k' < ns ! i \<longrightarrow>
               pos_x (calcPositions f ! seatIndex ns i k') < pos_x (calcPositions f ! seatIndex ns i k)))"
proof -
  let ?n = "ns ! i"
  note x = pos_x_seat [OF assms(1,2)]
  have err: "\<And>m. m < ?n \<Longrightarrow> \<bar>pos_x (calcPositions f ! seatIndex ns i m) - idealX ?n m\<bar> \<le> 1 / 10 ^ 12"
    by (simp only: x seatX_err)
  have k2: "?n - 1 - k < ?n" using assms(3) by simp
  have a: "\<bar>pos_x (calcPositions f ! seatIndex ns i k) - idealX ?n k\<bar> \<le> 1 / 10 ^ 12"
    by (rule err [OF assms(3)])
  have sym: "idealX ?n k + idealX ?n (?n - 1 - k) = 100"
    by (rule idealX_sym [OF assms(3)])
  have b: "\<bar>pos_x (calcPositions f ! seatIndex ns i k) +
            pos_x (calcPositions f ! seatIndex ns i (?n - 1 - k)) - 100\<bar> \<le> 2 / 10 ^ 12"
    using a err [OF k2] sym by linarith
  have c: "Suc k < ?n \<longrightarrow>
            \<bar>pos_x (calcPositions f ! seatIndex ns i k) -
               pos_x (calcPositions f ! seatIndex ns i (Suc k)) - 120 / (real ?n + 1)\<bar> \<le> 2 / 10 ^ 12"
  proof
    assume s: "Suc k < ?n"
    show "\<bar>pos_x (calcPositions f ! seatIndex ns i k) -
               pos_x (calcPositions f ! seatIndex ns i (Suc k)) - 120 / (real ?n + 1)\<bar> \<le> 2 / 10 ^ 12"
      using a err [OF s] idealX_step [of ?n k] by linarith
  qed
  have d: "?n \<le> 10 ^ 9 \<longrightarrow>
            (\<forall>k'. k < k' \<and> k' < ?n \<longrightarrow>
               pos_x (calcPositions f ! seatIndex ns i k') < pos_x (calcPositions f ! seatIndex ns i k))"
  proof (intro impI allI)
    fix k' assume nb: "?n \<le> 10 ^ 9" and kk: "k < k' \<and> k' < ?n"
    have gap: "3 / 10 ^ 12 \<le> idealX ?n k - idealX ?n k'"
    proof -
      have pos: "0 < real ?n + 1" by (simp add: add_nonneg_pos)
      have "real ?n \<le> 10 ^ 9" using nb by (metis of_nat_le_iff of_nat_numeral of_nat_power)
      then have le: "real ?n + 1 \<le> 2 * 10 ^ 9" by simp
      have "real k + 1 \<le> real k'" using kk by simp
      then have "120 * (real k + 1) + 120 \<le> 120 * (real k' + 1)" by simp
      then have "(120 * (real k + 1) + 120) / (real ?n + 1) \<le> 120 * (real k' + 1) / (real ?n + 1)"
        using pos by (simp only: divide_right_mono less_imp_le)
      then have g1: "120 / (real ?n + 1) \<le>
                     120 * (real k' + 1) / (real ?n + 1) - 120 * (real k + 1) / (real ?n + 1)"
        by (simp add: add_divide_distrib)
      have "120 / (2 * 10 ^ 9) \<le> 120 / (real ?n + 1)"
        using pos le by (intro divide_left_mono) simp_all
      then have "3 / 10 ^ 12 \<le> 120 / (real ?n + 1)" by simp
      then show ?thesis using g1 unfolding idealX_eq by linarith
    qed
    show "pos_x (calcPositions f ! seatIndex ns i k') < pos_x (calcPositions f ! seatIndex ns i k)"
    proof -
      have k'n: "k' < ?n" using kk by simp
      have tp: "(0::real) < 1 / 10 ^ 12" by simp
      have t3: "(3::real) / 10 ^ 12 = 3 * (1 / 10 ^ 12)" by simp
      show ?thesis using a err [OF k'n] gap tp unfolding t3 by linarith
    qed
  qed
  show ?thesis using a sym b c d by blast
qed

theorem calcPositions_line_x_witness:
  "\<bar>pos_x (calcPositions \<lparr>name = ''4-4-2'', lines = [Some 1, Some 4, Some 4, Some 2]\<rparr> ! 9) +
     pos_x (calcPositions \<lparr>name = ''4-4-2'', lines = [Some 1, Some 4, Some 4, Some 2]\<rparr> ! 10) - 100\<bar>
     \<le> 2 / 10 ^ 12 \<and>
   \<bar>pos_x (calcPositions \<lparr>name = ''4-4-2'', lines = [Some 1, Some 4, Some 4, Some 2]\<rparr> ! 9) -
     pos_x (calcPositions \<lparr>name = ''4-4-2'', lines = [Some 1, Some 4, Some 4, Some 2]\<rparr> ! 10) - 40\<bar>
     \<le> 2 / 10 ^ 12 \<and>
   pos_x (calcPositions \<lparr>name = ''4-4-2'', lines = [Some 1, Some 4, Some 4, Some 2]\<rparr> ! 10) <
     pos_x (calcPositions \<lparr>name = ''4-4-2'', lines = [Some 1, Some 4, Some 4, Some 2]\<rparr> ! 9)"
proof -
  let ?f = "\<lparr>name = ''4-4-2'', lines = [Some 1, Some 4, Some 4, Some 2]\<rparr>"
  let ?ns = "[1, 4, 4, 2::nat]"
  have h1: "lines ?f = counts ?ns" by (simp add: counts_def)
  have h2: "3 < length ?ns" by simp
  have h3: "0 < ?ns ! 3" by (simp add: numeral_3_eq_3)
  note t = calcPositions_line_x [OF h1 h2 h3]
  have n: "?ns ! 3 = 2" by (simp add: numeral_3_eq_3)
  have s9: "seatIndex ?ns 3 0 = 9" by (simp add: seatIndex_def numeral_3_eq_3)
  have s10: "seatIndex ?ns 3 (Suc 0) = 10" by (simp add: seatIndex_def numeral_3_eq_3)
  have s10': "seatIndex ?ns 3 (2 - 1 - 0) = 10" by (simp add: seatIndex_def numeral_3_eq_3)
  have a: "\<bar>pos_x (calcPositions ?f ! 9) + pos_x (calcPositions ?f ! 10) - 100\<bar> \<le> 2 / 10 ^ 12"
    using t [THEN conjunct2, THEN conjunct2, THEN conjunct1] unfolding n s9 s10' .
  have "Suc 0 < ?ns ! 3" by (simp add: numeral_3_eq_3)
  then have "\<bar>pos_x (calcPositions ?f ! seatIndex ?ns 3 0) -
       pos_x (calcPositions ?f ! seatIndex ?ns 3 (Suc 0)) - 120 / (real (?ns ! 3) + 1)\<bar> \<le> 2 / 10 ^ 12"
    using t [THEN conjunct2, THEN conjunct2, THEN conjunct2, THEN conjunct1] by (rule rev_mp)
  then have b: "\<bar>pos_x (calcPositions ?f ! 9) - pos_x (calcPositions ?f ! 10) - 40\<bar> \<le> 2 / 10 ^ 12"
    unfolding n s9 s10 by simp
  have "?ns ! 3 \<le> 10 ^ 9" by (simp add: numeral_3_eq_3)
  then have "\<forall>k'. 0 < k' \<and> k' < ?ns ! 3 \<longrightarrow>
       pos_x (calcPositions ?f ! seatIndex ?ns 3 k') < pos_x (calcPositions ?f ! seatIndex ?ns 3 0)"
    using t [THEN conjunct2, THEN conjunct2, THEN conjunct2, THEN conjunct2] by (rule rev_mp)
  moreover have "0 < Suc 0 \<and> Suc 0 < ?ns ! 3" by (simp add: numeral_3_eq_3)
  ultimately have "pos_x (calcPositions ?f ! seatIndex ?ns 3 (Suc 0)) <
                   pos_x (calcPositions ?f ! seatIndex ?ns 3 0)"
    by blast
  then have c: "pos_x (calcPositions ?f ! 10) < pos_x (calcPositions ?f ! 9)"
    unfolding s9 s10 .
  show ?thesis using a b c by (intro conjI)
qed

text \<open>
  Claim C6 as stated fails in the two-seat line of the formation 4-4-2: the seats 9 and
  10 are at the doubles 69.99999999999999 and 29.999999999999996, whose sum is not 100,
  neither exactly nor after rounding to a double, and whose difference is not 40.
\<close>

theorem calcPositions_line_x_counterexample:
  "pos_x (calcPositions \<lparr>name = ''4-4-2'', lines = [Some 1, Some 4, Some 4, Some 2]\<rparr> ! 9) =
     4925812092436479 / 2 ^ 46 \<and>
   pos_x (calcPositions \<lparr>name = ''4-4-2'', lines = [Some 1, Some 4, Some 4, Some 2]\<rparr> ! 10) =
     8444249301319679 / 2 ^ 48 \<and>
   pos_x (calcPositions \<lparr>name = ''4-4-2'', lines = [Some 1, Some 4, Some 4, Some 2]\<rparr> ! 9) +
     pos_x (calcPositions \<lparr>name = ''4-4-2'', lines = [Some 1, Some 4, Some 4, Some 2]\<rparr> ! 10) \<noteq> 100 \<and>
   fl (pos_x (calcPositions \<lparr>name = ''4-4-2'', lines = [Some 1, Some 4, Some 4, Some 2]\<rparr> ! 9) +
       pos_x (calcPositions \<lparr>name = ''4-4-2'', lines = [Some 1, Some 4, Some 4, Some 2]\<rparr> ! 10)) \<noteq> 100 \<and>
   pos_x (calcPositions \<lparr>name = ''4-4-2'', lines = [Some 1, Some 4, Some 4, Some 2]\<rparr> ! 9) -
     pos_x (calcPositions \<lparr>name = ''4-4-2'', lines = [Some 1, Some 4, Some 4, Some 2]\<rparr> ! 10) \<noteq> 40"
proof -
  let ?f = "\<lparr>name = ''4-4-2'', lines = [Some 1, Some 4, Some 4, Some 2]\<rparr>"
  let ?ns = "[1, 4, 4, 2::nat]"
  have h1: "lines ?f = counts ?ns" by (simp add: counts_def)
  have h2: "3 < length ?ns" by simp
  have m0: "0 < ?ns ! 3" by (simp add: numeral_3_eq_3)
  have m1: "Suc 0 < ?ns ! 3" by (simp add: numeral_3_eq_3)
  have n: "int (?ns ! 3) = 2" by (simp add: numeral_3_eq_3)
  have s9: "seatIndex ?ns 3 0 = 9" by (simp add: seatIndex_def numeral_3_eq_3)
  have s10: "seatIndex ?ns 3 (Suc 0) = 10" by (simp add: seatIndex_def numeral_3_eq_3)
  have one: "seatX 2 (Suc 0) = 8444249301319679 / 2 ^ 48" using seatX_2_1 by simp
  have x9: "pos_x (calcPositions ?f ! 9) = 4925812092436479 / 2 ^ 46"
    using pos_x_seat [OF h1 h2 m0] unfolding s9 n seatX_2_0 .
  have x10: "pos_x (calcPositions ?f ! 10) = 8444249301319679 / 2 ^ 48"
    using pos_x_seat [OF h1 h2 m1] unfolding s10 n one .
  have a: "pos_x (calcPositions ?f ! 9) + pos_x (calcPositions ?f ! 10) \<noteq> 100"
    unfolding x9 x10 by simp
  have b: "fl (pos_x (calcPositions ?f ! 9) + pos_x (calcPositions ?f ! 10)) \<noteq> 100"
    unfolding x9 x10 fl_sum_442 by simp
  have c: "pos_x (calcPositions ?f ! 9) - pos_x (calcPositions ?f ! 10) \<noteq> 40"
    unfolding x9 x10 by simp
  show ?thesis using x9 x10 a b c by (intro conjI)
qed
section \<open>Properties of the override resolution\<close>

text \<open>
  Claim C5. For a seat index within the seat count of the formation, let \<open>pos\<close> be the
  stored override of the index when there is one and \<open>calcPositions(formation)[index]\<close>
  otherwise. Then \<open>pos\<close> is the position that the renderer and the broadcast use, for
  both teams: the split display places the seat at \<open>pos\<close>, the combined-vertical display at
  the projection of \<open>pos\<close>, and the payload carries \<open>pos\<close>, or its projection in
  combined-vertical mode, rounded to two decimals.
\<close>

theorem effective_position:
  assumes "index < length (calcPositions f)"
    and "pos = (case ovr index of Some p \<Rightarrow> p | None \<Rightarrow> calcPositions f ! index)"
  shows "effectivePos (calcPositions f) ovr index = Some pos \<and>
         renderSeatA f ovr False index = Some pos \<and>
         renderSeatB f ovr False index = Some pos \<and>
         renderSeatA f ovr True index = Some (toVerticalA pos) \<and>
         renderSeatB f ovr True index = Some (toVerticalB pos) \<and>
         map_option (\<lambda>s. (seat_x s, seat_y s)) (broadcastSeatA f ovr False index player) =
           Some (round2 (pos_x pos), round2 (pos_y pos)) \<and>
         map_option (\<lambda>s. (seat_x s, seat_y s)) (broadcastSeatB f ovr False index player) =
           Some (round2 (pos_x pos), round2 (pos_y pos)) \<and>
         map_option (\<lambda>s. (seat_x s, seat_y s)) (broadcastSeatA f ovr True index player) =
           Some (round2 (pos_x (toVerticalA pos)), round2 (pos_y (toVerticalA pos))) \<and>
         map_option (\<lambda>s. (seat_x s, seat_y s)) (broadcastSeatB f ovr True index player) =
           Some (round2 (pos_x (toVerticalB pos)), round2 (pos_y (toVerticalB pos)))"
proof -
  have e: "effectivePos (calcPositions f) ovr index = Some pos"
    using assms by (simp add: effectivePos_def)
  show ?thesis
    by (simp add: e renderSeatA_def renderSeatB_def broadcastSeatA_def broadcastSeatB_def Let_def)
qed

lemma calcPositions_433:
  "calcPositions \<lparr>name = ''4-3-3'', lines = [Some 1, Some 4, Some 3, Some 3]\<rparr> ! 0 = \<lparr>pos_x = 50, pos_y = 90\<rparr> \<and>
   length (calcPositions \<lparr>name = ''4-3-3'', lines = [Some 1, Some 4, Some 3, Some 3]\<rparr>) = 11"
  by (simp add: calcPositions_def lineSeats_def lineY_def seatX_1_0)

theorem effective_position_witness:
  "effectivePos (calcPositions \<lparr>name = ''4-3-3'', lines = [Some 1, Some 4, Some 3, Some 3]\<rparr>)
     [1 \<mapsto> \<lparr>pos_x = 20, pos_y = 30\<rparr>] 1 = Some \<lparr>pos_x = 20, pos_y = 30\<rparr> \<and>
   effectivePos (calcPositions \<lparr>name = ''4-3-3'', lines = [Some 1, Some 4, Some 3, Some 3]\<rparr>)
     [1 \<mapsto> \<lparr>pos_x = 20, pos_y = 30\<rparr>] 0 = Some \<lparr>pos_x = 50, pos_y = 90\<rparr>"
proof -
  let ?f = "\<lparr>name = ''4-3-3'', lines = [Some 1, Some 4, Some 3, Some 3]\<rparr>"
  let ?ovr = "[1 \<mapsto> \<lparr>pos_x = 20, pos_y = 30\<rparr>] :: override_map"
  have l: "length (calcPositions ?f) = 11" using calcPositions_433 by (rule conjunct2)
  have z: "calcPositions ?f ! 0 = \<lparr>pos_x = 50, pos_y = 90\<rparr>" using calcPositions_433 by (rule conjunct1)
  have h1: "(1::nat) < length (calcPositions ?f)" by (simp add: l)
  have h0: "(0::nat) < length (calcPositions ?f)" by (simp add: l)
  have p1: "\<lparr>pos_x = 20, pos_y = 30\<rparr> = (case ?ovr 1 of Some p \<Rightarrow> p | None \<Rightarrow> calcPositions ?f ! 1)"
    by simp
  have p0: "\<lparr>pos_x = 50, pos_y = 90\<rparr> = (case ?ovr 0 of Some p \<Rightarrow> p | None \<Rightarrow> calcPositions ?f ! 0)"
    by (simp add: z)
  have a: "effectivePos (calcPositions ?f) ?ovr 1 = Some \<lparr>pos_x = 20, pos_y = 30\<rparr>"
    using effective_position [where index = 1 and f = "?f" and ovr = "?ovr", OF h1 p1]
    by (rule conjunct1)
  have b: "effectivePos (calcPositions ?f) ?ovr 0 = Some \<lparr>pos_x = 50, pos_y = 90\<rparr>"
    using effective_position [where index = 0 and f = "?f" and ovr = "?ovr", OF h0 p0]
    by (rule conjunct1)
  show ?thesis using a b by (intro conjI)
qed

section \<open>Properties of the score control\<close>

text \<open>
  Claim C10. Every value that the score control, as \<open>App\<close> renders it, passes to
  \<open>onChange\<close> is the current value minus one (minus button, ArrowUp) or plus one (plus
  button, ArrowDown), clamped to the range from 0 to 9: the larger of 0 and the smaller
  of 9 and that number. It is an integer between 0 and 9 for any current value; the
  other keys pass nothing.
\<close>

theorem score_control_range:
  "onMinusClick (appScoreProps v) = max 0 (min 9 (v - 1)) \<and>
   onPlusClick (appScoreProps v) = max 0 (min 9 (v + 1)) \<and>
   fst (onKeyDown (appScoreProps v) opn ArrowUp) = Some (max 0 (min 9 (v - 1))) \<and>
   fst (onKeyDown (appScoreProps v) opn ArrowDown) = Some (max 0 (min 9 (v + 1))) \<and>
   fst (onKeyDown (appScoreProps v) opn Enter) = None \<and>
   fst (onKeyDown (appScoreProps v) opn OtherKey) = None \<and>
   0 \<le> onMinusClick (appScoreProps v) \<and> onMinusClick (appScoreProps v) \<le> 9 \<and>
   0 \<le> onPlusClick (appScoreProps v) \<and> onPlusClick (appScoreProps v) \<le> 9"
  by (simp add: onMinusClick_def onPlusClick_def onKeyDown_def appScoreProps_def
      propMin_def propMax_def clamp_def)

theorem score_control_range_witness:
  "onPlusClick (appScoreProps 3) = 4 \<and> onMinusClick (appScoreProps 3) = 2 \<and>
   fst (onKeyDown (appScoreProps 3) False ArrowDown) = Some 4 \<and>
   fst (onKeyDown (appScoreProps 3) False ArrowUp) = Some 2 \<and>
   onPlusClick (appScoreProps 9) = 9 \<and> onMinusClick (appScoreProps 0) = 0 \<and>
   onPlusClick (appScoreProps 15) = 9 \<and> onMinusClick (appScoreProps 15) = 9 \<and>
   onPlusClick (appScoreProps (- 4)) = 0 \<and> onMinusClick (appScoreProps (- 4)) = 0"
  using score_control_range [of 3 False] score_control_range [of 9 False]
    score_control_range [of 0 False] score_control_range [of 15 False]
    score_control_range [of "- 4" False]
  by simp

section \<open>Properties of the drag controller\<close>










lemma mounted_fields:
  "fieldRef mountedState = Some \<lparr>r_left = 0, r_top = 0, r_width = 100, r_height = 100\<rparr>"
  "fieldRefB mountedState = Some \<lparr>r_left = 0, r_top = 0, r_width = 100, r_height = 100\<rparr>"
  "verticalMode mountedState = False"
  "overrides mountedState = Map.empty"
  "overridesB mountedState = Map.empty"
  "singleClickTimerRef mountedState = None"
  "broadcastTimerRef mountedState = None"
  "draggingRef mountedState = None"
  "draggingRefB mountedState = None"
  by (simp_all add: mountedState_def initialState_def)






section \<open>Mode round trip\<close>

lemma calcPositions_initial:
  "length (calcPositions (formation mountedState)) = 11"
  "length (calcPositions (formationB mountedState)) = 11"
  using calcPositions_433 by (simp_all add: mountedState_def initialState_def)

text \<open>
  Claim C2 at a concrete seat. In combined-vertical mode, seat 0 of team A with the
  override (60, 50) is rendered at (61.5, 27). A pointer-down at the centre of that
  seat followed by a pointer-move at the same point stores the override (61.5, 54), not
  (60, 50). Seat 0 of team B with the override (60, 50) is rendered at (61.5, 73), and
  the same gesture stores (61.5, 54).
\<close>

theorem vertical_drag_round_trip:
  "renderSeatA (formation mountedState) [0 \<mapsto> \<lparr>pos_x = 60, pos_y = 50\<rparr>] True 0 =
     Some \<lparr>pos_x = 61.5, pos_y = 27\<rparr> \<and>
   overrides (onPointerMove \<lparr>clientX = 61.5, clientY = 27\<rparr>
                (onPointerDown \<lparr>clientX = 61.5, clientY = 27\<rparr>
                   \<lparr>r_left = 33.5, r_top = - 1, r_width = 56, r_height = 56\<rparr> 0
                   (mountedState\<lparr>verticalMode := True,
                                 overrides := [0 \<mapsto> \<lparr>pos_x = 60, pos_y = 50\<rparr>]\<rparr>))) 0 =
     Some \<lparr>pos_x = 61.5, pos_y = 54\<rparr> \<and>
   renderSeatB (formationB mountedState) [0 \<mapsto> \<lparr>pos_x = 60, pos_y = 50\<rparr>] True 0 =
     Some \<lparr>pos_x = 61.5, pos_y = 73\<rparr> \<and>
   overridesB (onPointerMoveB \<lparr>clientX = 61.5, clientY = 73\<rparr>
                (onPointerDownB \<lparr>clientX = 61.5, clientY = 73\<rparr>
                   \<lparr>r_left = 33.5, r_top = 45, r_width = 56, r_height = 56\<rparr> 0
                   (mountedState\<lparr>verticalMode := True,
                                 overridesB := [0 \<mapsto> \<lparr>pos_x = 60, pos_y = 50\<rparr>]\<rparr>))) 0 =
     Some \<lparr>pos_x = 61.5, pos_y = 54\<rparr>"
proof -
  have a: "renderSeatA (formation mountedState) [0 \<mapsto> \<lparr>pos_x = 60, pos_y = 50\<rparr>] True 0 =
     Some \<lparr>pos_x = 61.5, pos_y = 27\<rparr>"
    by (simp add: renderSeatA_def effectivePos_def calcPositions_initial toVerticalA_def)
  have b: "renderSeatB (formationB mountedState) [0 \<mapsto> \<lparr>pos_x = 60, pos_y = 50\<rparr>] True 0 =
     Some \<lparr>pos_x = 61.5, pos_y = 73\<rparr>"
    by (simp add: renderSeatB_def effectivePos_def calcPositions_initial toVerticalB_def)
  have z: "hypot 0 0 = 0" by (simp add: hypot_def)
  have c: "overrides (onPointerMove \<lparr>clientX = 61.5, clientY = 27\<rparr>
                (onPointerDown \<lparr>clientX = 61.5, clientY = 27\<rparr>
                   \<lparr>r_left = 33.5, r_top = - 1, r_width = 56, r_height = 56\<rparr> 0
                   (mountedState\<lparr>verticalMode := True,
                                 overrides := [0 \<mapsto> \<lparr>pos_x = 60, pos_y = 50\<rparr>]\<rparr>))) 0 =
     Some \<lparr>pos_x = 61.5, pos_y = 54\<rparr>"
    by (simp add: onPointerDown_def onPointerMove_def Let_def mounted_fields toPercent_def
        overrideValueA_def clamp01_def z MOVEMENT_THRESHOLD_def)
  have d: "overridesB (onPointerMoveB \<lparr>clientX = 61.5, clientY = 73\<rparr>
                (onPointerDownB \<lparr>clientX = 61.5, clientY = 73\<rparr>
                   \<lparr>r_left = 33.5, r_top = 45, r_width = 56, r_height = 56\<rparr> 0
                   (mountedState\<lparr>verticalMode := True,
                                 overridesB := [0 \<mapsto> \<lparr>pos_x = 60, pos_y = 50\<rparr>]\<rparr>))) 0 =
     Some \<lparr>pos_x = 61.5, pos_y = 54\<rparr>"
    by (simp add: onPointerDownB_def onPointerMoveB_def Let_def mounted_fields toPercent_def
        overrideValueB_def clamp01_def z MOVEMENT_THRESHOLD_def)
  show ?thesis using a c b d by (intro conjI)
qed

section \<open>Properties of the match-feed reconciler\<close>

subsection \<open>Goal attribution\<close>

lemma nth_mapPlayersWithLog:
  "idx < length startXI \<Longrightarrow>
   mapPlayersWithLog events startXI ! idx = mapPlayer events idx (startXI ! idx)"
  by (simp add: mapPlayersWithLog_def nth_enumerate_eq)

text \<open>
  Claim C8, as amended. For every player of the incoming roster the reconciler sets the
  goals count to the number of events of type Goal whose detail is not Missed Penalty
  and whose player has the identifier of the roster player or, when the roster player
  has a non-empty name, exactly that name. For a roster player with a non-empty name
  this is the count by identifier or exact name.
\<close>

theorem goal_attribution:
  assumes "idx < length startXI" and "p = startXI ! idx"
  shows "goals (mapPlayersWithLog events startXI ! idx) =
           Some (length (filter (\<lambda>ev. ev_type ev = ''Goal'' \<and> ev_detail ev \<noteq> ''Missed Penalty'' \<and>
                   (ev_player_id ev = fp_id p \<or>
                    (fp_name p \<noteq> None \<and> fp_name p \<noteq> Some [] \<and> ev_player_name ev = fp_name p)))
                 events)) \<and>
         (fp_name p \<noteq> None \<and> fp_name p \<noteq> Some [] \<longrightarrow>
            goals (mapPlayersWithLog events startXI ! idx) = Some (statedGoalCount events p))"
proof -
  have t: "truthy (fp_name p) = (fp_name p \<noteq> None \<and> fp_name p \<noteq> Some [])"
    by (cases "fp_name p") (simp_all add: truthy_def)
  have g: "goals (mapPlayersWithLog events startXI ! idx) = Some (goalCount events p)"
    using assms by (simp add: nth_mapPlayersWithLog mapPlayer_def)
  have s: "fp_name p \<noteq> None \<and> fp_name p \<noteq> Some [] \<Longrightarrow> goalCount events p = statedGoalCount events p"
    using t by (simp add: goalCount_def statedGoalCount_def)
  show ?thesis using g s by (simp add: goalCount_def t)
qed

theorem goal_attribution_witness:
  "goals (mapPlayersWithLog
            [\<lparr>ev_type = ''Goal'', ev_detail = ''Normal Goal'', ev_player_id = Some 987,
              ev_player_name = Some ''A. Striker''\<rparr>]
            [\<lparr>fp_id = Some 987, fp_name = Some ''A. Striker'', fp_number = Some 9\<rparr>] ! 0) = Some 1 \<and>
   goals (mapPlayersWithLog
            [\<lparr>ev_type = ''Goal'', ev_detail = ''Normal Goal'', ev_player_id = Some 987,
              ev_player_name = Some ''A. Striker''\<rparr>,
             \<lparr>ev_type = ''Goal'', ev_detail = ''Missed Penalty'', ev_player_id = Some 987,
              ev_player_name = Some ''A. Striker''\<rparr>]
            [\<lparr>fp_id = Some 987, fp_name = Some ''A. Striker'', fp_number = Some 9\<rparr>] ! 0) = Some 1 \<and>
   goals (mapPlayersWithLog
            [\<lparr>ev_type = ''Goal'', ev_detail = ''Normal Goal'', ev_player_id = None,
              ev_player_name = Some ''A. Striker''\<rparr>]
            [\<lparr>fp_id = Some 987, fp_name = Some ''A. Striker'', fp_number = Some 9\<rparr>] ! 0) =
     Some (statedGoalCount
            [\<lparr>ev_type = ''Goal'', ev_detail = ''Normal Goal'', ev_player_id = None,
              ev_player_name = Some ''A. Striker''\<rparr>]
            \<lparr>fp_id = Some 987, fp_name = Some ''A. Striker'', fp_number = Some 9\<rparr>)"
proof -
  let ?p = "\<lparr>fp_id = Some 987, fp_name = Some ''A. Striker'', fp_number = Some 9\<rparr>"
  have h1: "(0::nat) < length [?p]" by simp
  have h2: "?p = [?p] ! 0" by simp
  have h3: "fp_name ?p \<noteq> None \<and> fp_name ?p \<noteq> Some []" by simp
  note one = goal_attribution [OF h1 h2, THEN conjunct1]
  note two = goal_attribution [OF h1 h2, THEN conjunct2, THEN mp, OF h3]
  have a: "goals (mapPlayersWithLog
            [\<lparr>ev_type = ''Goal'', ev_detail = ''Normal Goal'', ev_player_id = Some 987,
              ev_player_name = Some ''A. Striker''\<rparr>] [?p] ! 0) = Some 1"
    by (simp add: one)
  have b: "goals (mapPlayersWithLog
            [\<lparr>ev_type = ''Goal'', ev_detail = ''Normal Goal'', ev_player_id = Some 987,
              ev_player_name = Some ''A. Striker''\<rparr>,
             \<lparr>ev_type = ''Goal'', ev_detail = ''Missed Penalty'', ev_player_id = Some 987,
              ev_player_name = Some ''A. Striker''\<rparr>] [?p] ! 0) = Some 1"
    by (simp add: one)
  show ?thesis using a b two by (intro conjI)
qed

text \<open>
  Claim C8 as stated fails for a roster player whose name is empty: an event of another
  identifier with the same empty name matches by exact name, and is not counted.
\<close>

theorem goal_attribution_counterexample:
  "goals (mapPlayersWithLog
            [\<lparr>ev_type = ''Goal'', ev_detail = ''Normal Goal'', ev_player_id = Some 2,
              ev_player_name = Some []\<rparr>]
            [\<lparr>fp_id = Some 1, fp_name = Some [], fp_number = None\<rparr>] ! 0) = Some 0 \<and>
   statedGoalCount
            [\<lparr>ev_type = ''Goal'', ev_detail = ''Normal Goal'', ev_player_id = Some 2,
              ev_player_name = Some []\<rparr>]
            \<lparr>fp_id = Some 1, fp_name = Some [], fp_number = None\<rparr> = 1"
  by (simp add: nth_mapPlayersWithLog mapPlayer_def goalCount_def statedGoalCount_def truthy_def)

subsection \<open>Parsing formation strings\<close>

lemma digit_char: "(d::nat) < 10 \<Longrightarrow> isDigit (char_of (48 + d))"
  by (simp add: isDigit_def)

lemma isDigit_not_hyphen: "isDigit c \<Longrightarrow> c \<noteq> CHR ''-''"
  by (auto simp: isDigit_def)

lemma isDigit_not_plus: "isDigit c \<Longrightarrow> c \<noteq> CHR ''+''"
  by (auto simp: isDigit_def)

lemma isDigit_not_white: "isDigit c \<Longrightarrow> \<not> isWhite c"
  by (auto simp: isDigit_def isWhite_def)

lemma showNat_digits: "showNat n \<noteq> [] \<and> (\<forall>c\<in>set (showNat n). isDigit c)"
proof (induction n rule: showNat.induct)
  case (1 n)
  show ?case
  proof (cases "n < 10")
    case True
    then show ?thesis by (subst showNat.simps, subst (2) showNat.simps) (simp add: digit_char)
  next
    case False
    have m: "n mod 10 < 10" by simp
    from False 1 have ih: "\<forall>c\<in>set (showNat (n div 10)). isDigit c" by simp
    show ?thesis using False ih digit_char [OF m]
      by (subst showNat.simps, subst (2) showNat.simps) simp
  qed
qed

lemma digitsValue_snoc: "digitsValue (ds @ [c]) = 10 * digitsValue ds + (of_char c - 48)"
  by (simp add: digitsValue_def)

lemma digitsValue_showNat: "digitsValue (showNat n) = n"
proof (induction n rule: showNat.induct)
  case (1 n)
  show ?case
  proof (cases "n < 10")
    case True
    then show ?thesis by (subst showNat.simps) (simp add: digitsValue_def)
  next
    case False
    with 1 have ih: "digitsValue (showNat (n div 10)) = n div 10" by simp
    have "digitsValue (showNat (n div 10) @ [char_of (48 + n mod 10)]) = 10 * (n div 10) + n mod 10"
      by (simp only: digitsValue_snoc ih) simp
    then show ?thesis using False by (subst showNat.simps) simp
  qed
qed

lemma parseInt_showNat: "parseInt (showNat n) = Some (int n)"
proof -
  obtain c cs where s: "showNat n = c # cs" using showNat_digits [of n] by (cases "showNat n") auto
  have all: "\<forall>c\<in>set (showNat n). isDigit c" using showNat_digits by blast
  have c: "isDigit c" using all s by simp
  have dw: "dropWhile isWhite (showNat n) = showNat n"
    using isDigit_not_white [OF c] s by simp
  have tw: "takeWhile isDigit (showNat n) = showNat n" using all by (simp add: takeWhile_eq_all_conv)
  have "parseInt (c # cs) = Some (int (digitsValue (c # cs)))"
    using isDigit_not_white [OF c] isDigit_not_hyphen [OF c] isDigit_not_plus [OF c] tw [unfolded s]
    by (simp add: parseInt_def Let_def)
  then show ?thesis using digitsValue_showNat [of n] by (simp add: s)
qed

lemma splitOn_nonempty: "splitOn sep s \<noteq> []"
  by (induction s) (auto split: list.splits)

lemma splitOn_word:
  "sep \<notin> set w \<Longrightarrow> splitOn sep (w @ sep # rest) = w # splitOn sep rest"
  by (induction w) auto

lemma splitOn_single: "sep \<notin> set w \<Longrightarrow> splitOn sep w = [w]"
  by (induction w) auto

lemma splitOn_joinHyphen:
  "ws \<noteq> [] \<Longrightarrow> \<forall>w\<in>set ws. CHR ''-'' \<notin> set w \<Longrightarrow> splitOn (CHR ''-'') (joinHyphen ws) = ws"
proof (induction ws rule: joinHyphen.induct)
  case 1
  then show ?case by simp
next
  case (2 w)
  then show ?case by (simp add: splitOn_single)
next
  case (3 w v ws)
  then show ?case by (simp add: splitOn_word)
qed

lemma joinHyphen_nonempty:
  "ws \<noteq> [] \<Longrightarrow> \<forall>w\<in>set ws. w \<noteq> [] \<Longrightarrow> joinHyphen ws \<noteq> []"
  by (induction ws rule: joinHyphen.induct) auto

text \<open>
  Claim C9, as amended. \<open>parseFormation\<close> returns the default lines [1, 4, 3, 3] for a
  missing or empty formation string. Any other string is split on the hyphen, each
  piece is read by \<open>parseInt\<close>, and the goalkeeper line 1 is put in front: the decimal
  line counts joined by hyphens yield 1 followed by those counts ("4-2-3-1" yields
  [1, 4, 2, 3, 1]), and a piece that does not start with a number yields NaN in its
  place, not the default.
\<close>

theorem parseFormation_lines:
  "parseFormation None = [Some 1, Some 4, Some 3, Some 3] \<and>
   parseFormation (Some []) = [Some 1, Some 4, Some 3, Some 3] \<and>
   (str \<noteq> [] \<longrightarrow> parseFormation (Some str) = Some 1 # map parseInt (splitOn (CHR ''-'') str)) \<and>
   (ns \<noteq> [] \<longrightarrow> parseFormation (Some (joinHyphen (map showNat ns))) = Some 1 # counts ns)"
proof -
  have a: "str \<noteq> [] \<longrightarrow> parseFormation (Some str) = Some 1 # map parseInt (splitOn (CHR ''-'') str)"
    by (simp add: parseFormation_def)
  have b: "ns \<noteq> [] \<longrightarrow> parseFormation (Some (joinHyphen (map showNat ns))) = Some 1 # counts ns"
  proof
    assume ne: "ns \<noteq> []"
    let ?ws = "map showNat ns"
    have w1: "?ws \<noteq> []" using ne by simp
    have w2: "\<forall>w\<in>set ?ws. w \<noteq> []" using showNat_digits by auto
    have w3: "\<forall>w\<in>set ?ws. CHR ''-'' \<notin> set w"
      using showNat_digits isDigit_not_hyphen by fastforce
    have j: "joinHyphen ?ws \<noteq> []" by (rule joinHyphen_nonempty [OF w1 w2])
    have sp: "splitOn (CHR ''-'') (joinHyphen ?ws) = ?ws" by (rule splitOn_joinHyphen [OF w1 w3])
    have "map parseInt ?ws = counts ns" by (simp add: counts_def parseInt_showNat)
    then show "parseFormation (Some (joinHyphen ?ws)) = Some 1 # counts ns"
      using j sp by (simp add: parseFormation_def)
  qed
  show ?thesis using a b by (simp add: parseFormation_def)
qed

lemma showNat_small: "showNat 1 = ''1''" "showNat 2 = ''2''" "showNat 3 = ''3''" "showNat 4 = ''4''"
  by (subst showNat.simps, simp add: char_of_eq_iff)+

theorem parseFormation_lines_witness:
  "parseFormation (Some ''4-2-3-1'') = [Some 1, Some 4, Some 2, Some 3, Some 1] \<and>
   parseFormation (Some ''4-x-3'') = Some 1 # map parseInt [''4'', ''x'', ''3'']"
proof -
  have ne: "[4, 2, 3, 1::nat] \<noteq> []" by simp
  have one: "showNat (Suc 0) = ''1''" using showNat_small(1) by simp
  have j: "joinHyphen (map showNat [4, 2, 3, 1]) = ''4-2-3-1''" by (simp add: showNat_small one)
  have a: "parseFormation (Some ''4-2-3-1'') = Some 1 # counts [4, 2, 3, 1]"
    using parseFormation_lines [where ns = "[4, 2, 3, 1]", THEN conjunct2, THEN conjunct2, THEN conjunct2, THEN mp, OF ne]
    by (simp only: j)
  have ne2: "''4-x-3'' \<noteq> []" by simp
  have b: "parseFormation (Some ''4-x-3'') = Some 1 # map parseInt (splitOn (CHR ''-'') ''4-x-3'')"
    using parseFormation_lines [where str = "''4-x-3''", THEN conjunct2, THEN conjunct2, THEN conjunct1, THEN mp, OF ne2] .
  show ?thesis using a b by (simp add: counts_def)
qed

text \<open>
  Claim C9 as stated fails for an unparseable formation string: "abc" yields the lines
  [1, NaN], not the default.
\<close>

theorem parseFormation_counterexample:
  "parseFormation (Some ''abc'') = [Some 1, None] \<and>
   parseFormation (Some ''abc'') \<noteq> [Some 1, Some 4, Some 3, Some 3]"
  by (simp add: parseFormation_def parseInt_def isWhite_def isDigit_def Let_def)

subsection \<open>The two merge policies\<close>

lemma loadMatchLineup_success:
  assumes "2 \<le> length lineups"
  shows "loadMatchLineup fixtureId homeTeam awayTeam isAutoRefresh (Some lineups) (Some (fx # rest)) st =
    (let homeStr = formationOrDefault (lu_formation (lineups ! 0));
         awayStr = formationOrDefault (lu_formation (lineups ! 1));
         homeFormation = \<lparr>name = homeStr, lines = parseFormation (Some homeStr)\<rparr>;
         awayFormation = \<lparr>name = awayStr, lines = parseFormation (Some awayStr)\<rparr>;
         homePlayers = mapPlayersWithLog (fx_events fx) (lu_startXI (lineups ! 0));
         awayPlayers = mapPlayersWithLog (fx_events fx) (lu_startXI (lineups ! 1));
         call = \<lparr>b_formation = homeFormation, b_formationB = awayFormation,
                 b_players = homePlayers, b_playersB = awayPlayers,
                 b_overrides = (if isAutoRefresh then overrides st else Map.empty),
                 b_overridesB = (if isAutoRefresh then overridesB st else Map.empty),
                 b_verticalMode = verticalMode st,
                 b_scoreA = scoreOr0 (fx_goals_home fx), b_scoreB = scoreOr0 (fx_goals_away fx),
                 b_teamNameA = team_name homeTeam, b_teamNameB = team_name awayTeam,
                 b_teamLogoA = Some (logoData homeTeam (lineups ! 0)), b_teamLogoB = Some (logoData awayTeam (lineups ! 1)),
                 b_matchTime = formatMatchTime (fx_elapsed fx), b_matchStatus = fx_status_short fx,
                 b_delay = 100\<rparr>;
         common = st\<lparr>formation := homeFormation, players := homePlayers,
                     teamNameA := team_name homeTeam, teamLogoA := Some (logoData homeTeam (lineups ! 0)),
                     formationB := awayFormation, playersB := awayPlayers,
                     teamNameB := team_name awayTeam, teamLogoB := Some (logoData awayTeam (lineups ! 1)),
                     scoreA := scoreOr0 (fx_goals_home fx), scoreB := scoreOr0 (fx_goals_away fx)\<rparr>
     in if isAutoRefresh then (common, NoNotice, Some call)
        else (common\<lparr>overrides := Map.empty, overridesB := Map.empty,
                      selectedFixtureId := Some fixtureId, autoRefreshEnabled := True,
                      showLiveMatches := False, isLoadingMatches := False\<rparr>,
              LineupLoaded, Some call))"
  using assms by (simp add: loadMatchLineup_def Let_def)

text \<open>
  Claim C4. A successful feed update (a lineup response of at least two teams and a
  fixture) processed as an auto-refresh tick leaves the override maps of both teams
  unchanged, while a user-initiated load of the same update empties both; either way
  the rosters and the scores are replaced by those of the feed, and the status of the
  feed goes out with the broadcast that the load schedules.
\<close>

theorem auto_refresh_merge:
  assumes "2 \<le> length lineups"
    and "tick = loadMatchLineup fixtureId homeTeam awayTeam True (Some lineups) (Some (fx # rest)) st"
    and "load = loadMatchLineup fixtureId homeTeam awayTeam False (Some lineups) (Some (fx # rest)) st"
  shows "overrides (fst tick) = overrides st \<and> overridesB (fst tick) = overridesB st \<and>
         overrides (fst load) = Map.empty \<and> overridesB (fst load) = Map.empty \<and>
         (\<forall>r \<in> {tick, load}.
            players (fst r) = mapPlayersWithLog (fx_events fx) (lu_startXI (lineups ! 0)) \<and>
            playersB (fst r) = mapPlayersWithLog (fx_events fx) (lu_startXI (lineups ! 1)) \<and>
            scoreA (fst r) = scoreOr0 (fx_goals_home fx) \<and>
            scoreB (fst r) = scoreOr0 (fx_goals_away fx) \<and>
            map_option b_matchStatus (snd (snd r)) = Some (fx_status_short fx) \<and>
            map_option b_scoreA (snd (snd r)) = Some (scoreOr0 (fx_goals_home fx)) \<and>
            map_option b_scoreB (snd (snd r)) = Some (scoreOr0 (fx_goals_away fx))) \<and>
         map_option b_overrides (snd (snd tick)) = Some (overrides st) \<and>
         map_option b_overridesB (snd (snd tick)) = Some (overridesB st) \<and>
         map_option b_overrides (snd (snd load)) = Some Map.empty \<and>
         map_option b_overridesB (snd (snd load)) = Some Map.empty"
  by (simp add: assms(2,3) loadMatchLineup_success [OF assms(1)] Let_def)

theorem auto_refresh_merge_witness:
  "overrides (fst (loadMatchLineup 12345
       \<lparr>team_id = 33, team_name = ''Home FC'', team_logo = None\<rparr>
       \<lparr>team_id = 34, team_name = ''Away FC'', team_logo = None\<rparr> True
       (Some [\<lparr>lu_formation = Some ''4-2-3-1'', lu_startXI = [], lu_team_country = None\<rparr>,
              \<lparr>lu_formation = Some ''4-4-2'', lu_startXI = [], lu_team_country = None\<rparr>])
       (Some [\<lparr>fx_events = [], fx_goals_home = Some 2, fx_goals_away = None,
               fx_elapsed = Some 57, fx_status_short = Some ''2H''\<rparr>])
       (mountedState\<lparr>overrides := [3 \<mapsto> \<lparr>pos_x = 40, pos_y = 40\<rparr>]\<rparr>))) 3 =
     Some \<lparr>pos_x = 40, pos_y = 40\<rparr> \<and>
   overrides (fst (loadMatchLineup 12345
       \<lparr>team_id = 33, team_name = ''Home FC'', team_logo = None\<rparr>
       \<lparr>team_id = 34, team_name = ''Away FC'', team_logo = None\<rparr> False
       (Some [\<lparr>lu_formation = Some ''4-2-3-1'', lu_startXI = [], lu_team_country = None\<rparr>,
              \<lparr>lu_formation = Some ''4-4-2'', lu_startXI = [], lu_team_country = None\<rparr>])
       (Some [\<lparr>fx_events = [], fx_goals_home = Some 2, fx_goals_away = None,
               fx_elapsed = Some 57, fx_status_short = Some ''2H''\<rparr>])
       (mountedState\<lparr>overrides := [3 \<mapsto> \<lparr>pos_x = 40, pos_y = 40\<rparr>]\<rparr>))) 3 = None \<and>
   scoreA (fst (loadMatchLineup 12345
       \<lparr>team_id = 33, team_name = ''Home FC'', team_logo = None\<rparr>
       \<lparr>team_id = 34, team_name = ''Away FC'', team_logo = None\<rparr> True
       (Some [\<lparr>lu_formation = Some ''4-2-3-1'', lu_startXI = [], lu_team_country = None\<rparr>,
              \<lparr>lu_formation = Some ''4-4-2'', lu_startXI = [], lu_team_country = None\<rparr>])
       (Some [\<lparr>fx_events = [], fx_goals_home = Some 2, fx_goals_away = None,
               fx_elapsed = Some 57, fx_status_short = Some ''2H''\<rparr>])
       (mountedState\<lparr>overrides := [3 \<mapsto> \<lparr>pos_x = 40, pos_y = 40\<rparr>]\<rparr>))) = 2"
proof -
  let ?home = "\<lparr>team_id = 33, team_name = ''Home FC'', team_logo = None\<rparr>"
  let ?away = "\<lparr>team_id = 34, team_name = ''Away FC'', team_logo = None\<rparr>"
  let ?lineups = "[\<lparr>lu_formation = Some ''4-2-3-1'', lu_startXI = [], lu_team_country = None\<rparr>,
                   \<lparr>lu_formation = Some ''4-4-2'', lu_startXI = [], lu_team_country = None\<rparr>]"
  let ?fx = "\<lparr>fx_events = [], fx_goals_home = Some 2, fx_goals_away = None,
               fx_elapsed = Some 57, fx_status_short = Some ''2H''\<rparr>"
  let ?st = "mountedState\<lparr>overrides := [3 \<mapsto> \<lparr>pos_x = 40, pos_y = 40\<rparr>]\<rparr>"
  have h: "2 \<le> length ?lineups" by simp
  note t = auto_refresh_merge [where fixtureId = 12345 and homeTeam = "?home" and awayTeam = "?away"
      and fx = "?fx" and rest = "[]" and st = "?st", OF h refl refl]
  have a: "overrides (fst (loadMatchLineup 12345 ?home ?away True (Some ?lineups) (Some [?fx]) ?st)) =
             overrides ?st"
    using t by (rule conjunct1)
  have b: "overrides (fst (loadMatchLineup 12345 ?home ?away False (Some ?lineups) (Some [?fx]) ?st)) =
             Map.empty"
    using t [THEN conjunct2, THEN conjunct2] by (rule conjunct1)
  have c: "scoreA (fst (loadMatchLineup 12345 ?home ?away True (Some ?lineups) (Some [?fx]) ?st)) =
             scoreOr0 (fx_goals_home ?fx)"
    using t [THEN conjunct2, THEN conjunct2, THEN conjunct2, THEN conjunct2, THEN conjunct1]
    by blast
  show ?thesis by (simp add: a b c scoreOr0_def)
qed

section \<open>Properties of formation change and team swap\<close>

text \<open>
  Claim C7, as amended. A formation change made in the formation editor of a team
  (\<open>updatePlayersForFormation\<close> for team A, \<open>updatePlayersForFormationB\<close> for team B)
  empties the override map of that team and leaves the override map of the other team
  unchanged. A team swap exchanges the two override maps: every override entry
  survives, under the other team.
\<close>

theorem override_lifecycle:
  "overrides (fst (updatePlayersForFormation newFormation st)) = Map.empty \<and>
   overridesB (fst (updatePlayersForFormation newFormation st)) = overridesB st \<and>
   overridesB (fst (updatePlayersForFormationB newFormation st)) = Map.empty \<and>
   overrides (fst (updatePlayersForFormationB newFormation st)) = overrides st \<and>
   overrides (handleSwapTeams st) = overridesB st \<and>
   overridesB (handleSwapTeams st) = overrides st"
  by (simp add: updatePlayersForFormation_def updatePlayersForFormationB_def handleSwapTeams_def Let_def)

text \<open>
  Claim C7 as stated fails: after a team swap the override of seat 3 of team A is the
  override of seat 3 of team B, and after a formation change of team A an override of
  team B is still there.
\<close>

theorem override_lifecycle_counterexample:
  "overridesB (handleSwapTeams (mountedState\<lparr>overrides := [3 \<mapsto> \<lparr>pos_x = 40, pos_y = 40\<rparr>]\<rparr>)) 3 =
     Some \<lparr>pos_x = 40, pos_y = 40\<rparr> \<and>
   overridesB (fst (updatePlayersForFormation \<lparr>name = ''4-4-2'', lines = [Some 1, Some 4, Some 4, Some 2]\<rparr>
                 (mountedState\<lparr>overridesB := [3 \<mapsto> \<lparr>pos_x = 40, pos_y = 40\<rparr>]\<rparr>))) 3 =
     Some \<lparr>pos_x = 40, pos_y = 40\<rparr>"
  by (simp add: handleSwapTeams_def updatePlayersForFormation_def Let_def)

end
